theory Spec2Isabelle
  imports Complex_Main
begin

section \<open>JavaScript values used by the presentation controller\<close>

text \<open>
  Slide indices, pixel coordinates and millisecond time stamps are integers that JavaScript
  numbers hold exactly (below \<open>2^53\<close> in magnitude) and are modelled as \<open>int\<close>. The only
  non-integer arithmetic of \<open>app.js\<close> is the progress percentage: a division and a
  multiplication of IEEE 754 double precision numbers. Each of the two yields the exact
  result rounded to the nearest double, ties to the even significand; a result beyond the
  largest double is an infinity, a non-zero number divided by zero is an infinity and zero
  divided by zero is NaN. Nothing raises. A finite double is kept as the real number it
  denotes; the two zeros are not told apart.
\<close>

datatype jsnum = Fin real | PosInf | NegInf | NaN

text \<open>The number of binary digits of a positive integer.\<close>

function bitCount :: "int \<Rightarrow> nat" where
  "bitCount n = (if n \<le> 0 then 0 else Suc (bitCount (n div 2)))"
  by pat_completeness auto
termination
  by (relation "measure nat") auto

declare bitCount.simps [simp del]

text \<open>
  The binary exponent of a positive real \<open>x\<close>, the integer \<open>e\<close> with
  \<open>2^e \<le> x < 2^(e+1)\<close>. The doubles of that binade are the multiples of
  \<open>2^(e-52)\<close>; below the smallest normal number they are the multiples of
  \<open>2^(-1074)\<close>.
\<close>

definition exponent :: "real \<Rightarrow> int" where
  "exponent x =
     (if 1 \<le> x then int (bitCount \<lfloor>x\<rfloor>) - 1 else - int (bitCount (\<lceil>1 / x\<rceil> - 1)))"

definition quantum :: "real \<Rightarrow> real" where
  "quantum x = 2 powi (max (exponent x - 52) (- 1074))"

definition roundHalfEven :: "real \<Rightarrow> int" where
  \<comment> \<open>the nearest integer, the even one of two equally near\<close>
  "roundHalfEven z =
     (let f = \<lfloor>z\<rfloor>; d = z - of_int f
      in if d < 1 / 2 then f else if 1 / 2 < d then f + 1 else if even f then f else f + 1)"

definition nearestMagnitude :: "real \<Rightarrow> real" where
  \<comment> \<open>for positive \<open>x\<close>: the nearest multiple of the quantum of its binade\<close>
  "nearestMagnitude x = quantum x * of_int (roundHalfEven (x / quantum x))"

definition toDouble :: "real \<Rightarrow> jsnum" where
  \<comment> \<open>the double nearest to a real; \<open>2^1024\<close> is the first magnitude that overflows\<close>
  "toDouble x =
     (if x = 0 then Fin 0
      else
        (let r = nearestMagnitude \<bar>x\<bar>
         in if 2 ^ 1024 \<le> r then (if 0 < x then PosInf else NegInf)
            else Fin (if 0 < x then r else - r)))"

definition js_div :: "int \<Rightarrow> int \<Rightarrow> jsnum" where
  \<comment> \<open>\<open>a / b\<close> for integer-valued operands; the divisor is never the negative zero.\<close>
  "js_div a b =
     (if b = 0 then (if a = 0 then NaN else if 0 < a then PosInf else NegInf)
      else toDouble (real_of_int a / real_of_int b))"

fun js_mul :: "jsnum \<Rightarrow> jsnum \<Rightarrow> jsnum" where
  "js_mul (Fin a) (Fin b) = toDouble (a * b)"
| "js_mul NaN _ = NaN"
| "js_mul _ NaN = NaN"
| "js_mul PosInf (Fin b) = (if b = 0 then NaN else if 0 < b then PosInf else NegInf)"
| "js_mul NegInf (Fin b) = (if b = 0 then NaN else if 0 < b then NegInf else PosInf)"
| "js_mul (Fin a) PosInf = (if a = 0 then NaN else if 0 < a then PosInf else NegInf)"
| "js_mul (Fin a) NegInf = (if a = 0 then NaN else if 0 < a then NegInf else PosInf)"
| "js_mul PosInf PosInf = PosInf"
| "js_mul PosInf NegInf = NegInf"
| "js_mul NegInf PosInf = NegInf"
| "js_mul NegInf NegInf = PosInf"

fun js_le :: "jsnum \<Rightarrow> jsnum \<Rightarrow> bool" where
  \<comment> \<open>the comparison \<open><=\<close>: false as soon as one side is NaN\<close>
  "js_le NaN _ = False"
| "js_le _ NaN = False"
| "js_le (Fin a) (Fin b) = (a \<le> b)"
| "js_le NegInf _ = True"
| "js_le _ PosInf = True"
| "js_le PosInf _ = False"
| "js_le _ NegInf = False"

text \<open>Template literals print an integer in decimal.\<close>

definition digitChar :: "nat \<Rightarrow> char" where
  "digitChar d = ''0123456789'' ! d"

fun showNat :: "nat \<Rightarrow> string" where
  "showNat n = (if n < 10 then [digitChar n] else showNat (n div 10) @ [digitChar (n mod 10)])"

declare showNat.simps [simp del]

definition showInt :: "int \<Rightarrow> string" where
  "showInt i = (if i < 0 then CHR ''-'' # showNat (nat (- i)) else showNat (nat i))"

text \<open>
  A text is the list of its code units, one \<open>char\<close> each, so the texts of the model are
  those whose code units are below 256. \<open>String.prototype.trim\<close> removes white space and
  line terminators from both ends; the ones below 256 are tab, line feed, vertical tab, form
  feed, carriage return, space and the no-break space.
\<close>

definition isSpace :: "char \<Rightarrow> bool" where
  "isSpace c = (c = CHR '' '' \<or> c = CHR 0x09 \<or> c = CHR 0x0A \<or> c = CHR 0x0B
                \<or> c = CHR 0x0C \<or> c = CHR 0x0D \<or> c = CHR 0xA0)"

definition trim :: "string \<Rightarrow> string" where
  "trim str = rev (dropWhile isSpace (rev (dropWhile isSpace str)))"


section \<open>The document and the controller state\<close>

text \<open>
  A \<open>.slide\<close> element, as far as the controller reads or writes it: the text of its first
  \<open>h1\<close> and \<open>h2\<close> descendants (what \<open>querySelector\<close> finds, if anything), its own text
  content, and whether its class list holds \<open>active\<close> and \<open>prev\<close>.
\<close>

record slide =
  h1 :: "string option"
  h2 :: "string option"
  textContent :: string
  active :: bool
  prev :: bool

record button =
  disabled :: bool
  opacity :: string

text \<open>
  The two callbacks \<open>goToSlide\<close> hands to \<open>setTimeout\<close>: the outer one (50 ms), whose
  closure holds \<open>previousSlideIndex\<close>, and the inner one (600 ms).
\<close>

datatype task = Commit int | Unlock

text \<open>
  The fields of \<open>PresentationController\<close> that navigation touches, followed by the parts of
  the page it writes (\<open>None\<close> where \<open>getElementById\<close> found nothing), the messages handed to
  the screen reader, the clock (\<open>Date.now()\<close>, in ms) and the pending timers with their
  due times. The progress bar holds the percentage last assigned to its \<open>width\<close>. Auto-hide,
  full screen and printing never read or write these fields and are left out.
\<close>

record state =
  currentSlide :: int
  totalSlides :: int
  slides :: "slide list"
  isTransitioning :: bool
  touchStartX :: int
  touchStartY :: int
  touchStartTime :: int
  prevBtn :: "button option"
  nextBtn :: "button option"
  progressBar :: "jsnum option"
  slideCounter :: "string option"
  documentTitle :: string
  announcements :: "string list"
  clock :: int
  timers :: "(int \<times> task) list"

definition slideAt :: "state \<Rightarrow> int \<Rightarrow> slide option" where
  \<comment> \<open>\<open>this.slides[i]\<close>: \<open>undefined\<close> outside the list\<close>
  "slideAt s i = (if 0 \<le> i \<and> i < int (length (slides s)) then Some (slides s ! nat i) else None)"

definition updSlide :: "int \<Rightarrow> (slide \<Rightarrow> slide) \<Rightarrow> state \<Rightarrow> state" where
  \<comment> \<open>\<open>if (this.slides[i]) { ... this.slides[i].classList ... }\<close>\<close>
  "updSlide i f s =
     (if 0 \<le> i \<and> i < int (length (slides s))
      then s\<lparr>slides := (slides s)[nat i := f (slides s ! nat i)]\<rparr> else s)"

definition setTimeout :: "int \<Rightarrow> task \<Rightarrow> state \<Rightarrow> state" where
  "setTimeout delay k s = s\<lparr>timers := timers s @ [(clock s + delay, k)]\<rparr>"


section \<open>Presenter: the derived projections\<close>

definition counterText :: "state \<Rightarrow> string" where
  "counterText s = showInt (currentSlide s + 1) @ '' / '' @ showInt (totalSlides s)"

definition updateSlideCounter :: "state \<Rightarrow> state" where
  "updateSlideCounter s =
     (case slideCounter s of None \<Rightarrow> s
      | Some _ \<Rightarrow> s\<lparr>slideCounter := Some (counterText s)\<rparr>)"

definition progressFraction :: "state \<Rightarrow> jsnum" where
  \<comment> \<open>\<open>(this.currentSlide + 1) / this.totalSlides\<close>\<close>
  "progressFraction s = js_div (currentSlide s + 1) (totalSlides s)"

definition updateProgressBar :: "state \<Rightarrow> state" where
  "updateProgressBar s =
     (case progressBar s of None \<Rightarrow> s
      | Some _ \<Rightarrow> (let progress = js_mul (progressFraction s) (Fin 100)
                   in s\<lparr>progressBar := Some progress\<rparr>))"

definition updateNavigationButtons :: "state \<Rightarrow> state" where
  "updateNavigationButtons s =
     (let s1 = (case prevBtn s of None \<Rightarrow> s
                | Some b \<Rightarrow> s\<lparr>prevBtn := Some (b\<lparr>disabled := (currentSlide s = 0),
                     opacity := (if currentSlide s = 0 then ''0.5'' else ''1'')\<rparr>)\<rparr>)
      in (case nextBtn s1 of None \<Rightarrow> s1
          | Some b \<Rightarrow> s1\<lparr>nextBtn := Some (b\<lparr>disabled := (currentSlide s1 = totalSlides s1 - 1),
               opacity := (if currentSlide s1 = totalSlides s1 - 1 then ''0.5'' else ''1'')\<rparr>)\<rparr>))"

definition getSlideTitle :: "state \<Rightarrow> slide option \<Rightarrow> string" where
  "getSlideTitle s slideElement =
     (case slideElement of
        None \<Rightarrow> ''Slide '' @ showInt (currentSlide s + 1)
      | Some e \<Rightarrow>
          (case h1 e of Some t \<Rightarrow> trim t
           | None \<Rightarrow>
               (case h2 e of Some t \<Rightarrow> trim t
                | None \<Rightarrow> ''Slide '' @ showInt (currentSlide s + 1))))"

definition updateDocumentTitle :: "state \<Rightarrow> state" where
  "updateDocumentTitle s =
     (let currentSlideElement = slideAt s (currentSlide s);
          slideTitle = getSlideTitle s currentSlideElement
      in s\<lparr>documentTitle := slideTitle @ '' - AI Language Models & GitHub Copilot (''
             @ showInt (currentSlide s + 1) @ ''/'' @ showInt (totalSlides s) @ '')''\<rparr>)"

definition announceToScreenReader :: "string \<Rightarrow> state \<Rightarrow> state" where
  \<comment> \<open>the live region element is appended to the body; its removal a second later
      does not take the message back\<close>
  "announceToScreenReader message s = s\<lparr>announcements := announcements s @ [message]\<rparr>"

definition announceSlideChange :: "state \<Rightarrow> state" where
  "announceSlideChange s =
     (let slideTitle = getSlideTitle s (slideAt s (currentSlide s))
      in announceToScreenReader
           (''Slide '' @ showInt (currentSlide s + 1) @ '' of '' @ showInt (totalSlides s)
              @ '': '' @ slideTitle) s)"

definition updateUI :: "state \<Rightarrow> state" where
  "updateUI s =
     announceSlideChange (updateDocumentTitle (updateNavigationButtons
       (updateProgressBar (updateSlideCounter s))))"

definition handleResize :: "state \<Rightarrow> state" where
  "handleResize s = updateUI s"


section \<open>Navigator\<close>

definition goToSlide :: "int \<Rightarrow> state \<Rightarrow> state" where
  "goToSlide slideIndex s =
     (if isTransitioning s \<or> slideIndex < 0 \<or> slideIndex \<ge> totalSlides s
         \<or> slideIndex = currentSlide s
      then s
      else
        (let s1 = s\<lparr>isTransitioning := True\<rparr>;
             s2 = updSlide (currentSlide s1) (\<lambda>e. e\<lparr>active := False\<rparr>) s1;
             s3 = (if slideIndex < currentSlide s2
                   then updSlide (currentSlide s2) (\<lambda>e. e\<lparr>prev := True\<rparr>) s2
                   else updSlide (currentSlide s2) (\<lambda>e. e\<lparr>prev := False\<rparr>) s2);
             previousSlideIndex = currentSlide s3;
             s4 = s3\<lparr>currentSlide := slideIndex\<rparr>
         in setTimeout 50 (Commit previousSlideIndex) s4))"

definition nextSlide :: "state \<Rightarrow> state" where
  "nextSlide s =
     (if isTransitioning s \<or> currentSlide s \<ge> totalSlides s - 1 then s
      else goToSlide (currentSlide s + 1) s)"

definition previousSlide :: "state \<Rightarrow> state" where
  "previousSlide s =
     (if isTransitioning s \<or> currentSlide s \<le> 0 then s
      else goToSlide (currentSlide s - 1) s)"

definition resetPresentation :: "state \<Rightarrow> state" where
  "resetPresentation s = goToSlide 0 s"

text \<open>What a timer callback does when it runs.\<close>

fun runTask :: "task \<Rightarrow> state \<Rightarrow> state" where
  "runTask (Commit previousSlideIndex) s =
     (let s1 = updSlide (currentSlide s) (\<lambda>e. e\<lparr>active := True, prev := False\<rparr>) s;
          s2 = updSlide previousSlideIndex (\<lambda>e. e\<lparr>prev := False\<rparr>) s1;
          s3 = updateUI s2
      in setTimeout 600 Unlock s3)"
| "runTask Unlock s = s\<lparr>isTransitioning := False\<rparr>"

text \<open>
  The event loop's timers. One millisecond passes; the callbacks now due are taken off the
  list and run in the order in which they were scheduled. All delays in \<open>app.js\<close> are
  positive, so a callback scheduled by a running callback is due at a later tick.
\<close>

definition isDue :: "int \<Rightarrow> int \<times> task \<Rightarrow> bool" where
  "isDue now p = (fst p \<le> now)"

definition tick :: "state \<Rightarrow> state" where
  "tick s =
     (let now = clock s + 1;
          due = filter (isDue now) (timers s);
          rest = filter (\<lambda>p. \<not> isDue now p) (timers s)
      in foldl (\<lambda>x p. runTask (snd p) x) (s\<lparr>clock := now, timers := rest\<rparr>) due)"

primrec elapse :: "nat \<Rightarrow> state \<Rightarrow> state" where
  "elapse 0 s = s"
| "elapse (Suc n) s = elapse n (tick s)"


section \<open>Gesture interpreter\<close>

datatype intent = Next | Previous | GoTo int | Reset

fun perform :: "intent \<Rightarrow> state \<Rightarrow> state" where
  "perform Next s = nextSlide s"
| "perform Previous s = previousSlide s"
| "perform (GoTo i) s = goToSlide i s"
| "perform Reset s = resetPresentation s"

definition handleTouchStart :: "int \<Rightarrow> int \<Rightarrow> state \<Rightarrow> state" where
  "handleTouchStart clientX clientY s =
     s\<lparr>touchStartX := clientX, touchStartY := clientY, touchStartTime := clock s\<rparr>"

text \<open>
  \<open>handleTouchEnd\<close> returns the new state together with the navigation method it called,
  if it called one. \<open>!this.touchStartX\<close> holds for the number 0.
\<close>

definition handleTouchEnd :: "int \<Rightarrow> int \<Rightarrow> state \<Rightarrow> intent option \<times> state" where
  "handleTouchEnd touchEndX touchEndY s =
     (if touchStartX s = 0 \<or> touchStartY s = 0 then (None, s)
      else
        (let touchEndTime = clock s;
             deltaX = touchStartX s - touchEndX;
             deltaY = touchStartY s - touchEndY;
             deltaTime = touchEndTime - touchStartTime s
         in if deltaTime > 300 \<or> \<bar>deltaX\<bar> < 50 then (None, s)
            else
              (let (called, s1) =
                     (if \<bar>deltaX\<bar> > \<bar>deltaY\<bar>
                      then (if deltaX > 0 then (Some Next, nextSlide s)
                            else (Some Previous, previousSlide s))
                      else (None, s))
               in (called, s1\<lparr>touchStartX := 0, touchStartY := 0\<rparr>))))"


section \<open>Start-up and the public API\<close>

text \<open>
  The page as \<open>DOMContentLoaded\<close> finds it: the \<open>.slide\<close> elements in document order, the
  four control elements where they exist, the title, and the time.
\<close>

record page =
  pageSlides :: "slide list"
  pagePrevBtn :: "button option"
  pageNextBtn :: "button option"
  pageProgressBar :: "jsnum option"
  pageSlideCounter :: "string option"
  pageTitle :: string
  pageTime :: int

definition constructor :: "page \<Rightarrow> state" where
  \<comment> \<open>the field initialisers of the constructor, before \<open>init\<close>\<close>
  "constructor p =
     \<lparr>currentSlide = 0, totalSlides = 0, slides = [], isTransitioning = False,
      touchStartX = 0, touchStartY = 0, touchStartTime = 0,
      prevBtn = None, nextBtn = None, progressBar = None, slideCounter = None,
      documentTitle = pageTitle p, announcements = [], clock = pageTime p, timers = []\<rparr>"

definition setupElements :: "page \<Rightarrow> state \<Rightarrow> state" where
  "setupElements p s =
     updateNavigationButtons
       (s\<lparr>slides := pageSlides p, totalSlides := int (length (pageSlides p)),
          prevBtn := pagePrevBtn p, nextBtn := pageNextBtn p,
          progressBar := pageProgressBar p, slideCounter := pageSlideCounter p\<rparr>)"

definition init :: "page \<Rightarrow> state" where
  "init p = updateProgressBar (updateSlideCounter (setupElements p (constructor p)))"

record slide_info =
  current :: int
  total :: int
  title :: string
  element :: "slide option"

definition getCurrentSlideInfo :: "state \<Rightarrow> slide_info" where
  "getCurrentSlideInfo s =
     (let slideElement = slideAt s (currentSlide s)
      in \<lparr>current = currentSlide s + 1, total = totalSlides s,
          title = getSlideTitle s slideElement, element = slideElement\<rparr>)"

record slide_data =
  number :: int
  slideTitle :: string
  content :: string

text \<open>The export's time stamp is kept as the clock's milliseconds, not as an ISO string.\<close>

record export_data =
  exportTitle :: string
  exportTimestamp :: int
  exportTotalSlides :: int
  exportCurrentSlide :: int
  exportSlides :: "slide_data list"

definition exportSlideData :: "state \<Rightarrow> export_data" where
  "exportSlideData s =
     (let slideData =
            map (\<lambda>(index, e). \<lparr>number = int index + 1,
                                slideTitle = getSlideTitle s (Some e),
                                content = take 200 (trim (textContent e)) @ ''...''\<rparr>)
                (enumerate 0 (slides s))
      in \<lparr>exportTitle = ''AI Language Models & GitHub Copilot Best Practices'',
          exportTimestamp = clock s,
          exportTotalSlides = totalSlides s,
          exportCurrentSlide = currentSlide s + 1,
          exportSlides = slideData\<rparr>)"


section \<open>Runs of the controller\<close>

text \<open>
  Everything that can happen to a running controller: a navigation call (from a button, a
  key, or \<open>PresentationUtils\<close>), a touch start or end, a resize, and the passing of time.
\<close>

datatype event =
    Call intent
  | TouchStart int int
  | TouchEnd int int
  | Resize
  | Elapse nat

fun step :: "event \<Rightarrow> state \<Rightarrow> state" where
  "step (Call i) s = perform i s"
| "step (TouchStart x y) s = handleTouchStart x y s"
| "step (TouchEnd x y) s = snd (handleTouchEnd x y s)"
| "step Resize s = handleResize s"
| "step (Elapse n) s = elapse n s"

definition run :: "event list \<Rightarrow> state \<Rightarrow> state" where
  "run evs s = foldl (\<lambda>x e. step e x) s evs"


section \<open>Auxiliary notions for the proofs\<close>

text \<open>The message \<open>announceSlideChange\<close> builds.\<close>

definition announcementText :: "state \<Rightarrow> string" where
  "announcementText s =
     ''Slide '' @ showInt (currentSlide s + 1) @ '' of '' @ showInt (totalSlides s)
        @ '': '' @ getSlideTitle s (slideAt s (currentSlide s))"

text \<open>
  The counter element shows the text for the current index. The invariant of the controller:
  the index is in range (or the deck is empty), the counter element exists exactly if the page
  had one, and the transition flag is set exactly while one of the two transition callbacks is
  pending; the counter is in step with the index except between acceptance and the first
  callback.
\<close>

definition counterInSync :: "state \<Rightarrow> bool" where
  "counterInSync s \<longleftrightarrow> slideCounter s = map_option (\<lambda>_. counterText s) (slideCounter s)"

definition consistent :: "page \<Rightarrow> state \<Rightarrow> bool" where
  "consistent p s \<longleftrightarrow>
     totalSlides s = int (length (pageSlides p)) \<and>
     0 \<le> currentSlide s \<and>
     (currentSlide s < totalSlides s \<or> totalSlides s = 0 \<and> currentSlide s = 0) \<and>
     (slideCounter s = None \<longleftrightarrow> pageSlideCounter p = None) \<and>
     (if isTransitioning s
      then \<exists>d. clock s < d \<and>
             (timers s = [(d, Unlock)] \<and> counterInSync s \<or> (\<exists>q. timers s = [(d, Commit q)]))
      else timers s = [] \<and> counterInSync s)"

text \<open>What the titles of the slides depend on: the heading texts, slide by slide.\<close>

definition headings :: "state \<Rightarrow> (string option \<times> string option) list" where
  "headings s = map (\<lambda>e. (h1 e, h2 e)) (slides s)"

text \<open>
  Pages to run the controller on: five slides, three of them without heading; no slide at
  all; and twenty-five slides.
\<close>

definition plainSlide :: slide where
  "plainSlide = \<lparr>h1 = None, h2 = None, textContent = '' notes '', active = False, prev = False\<rparr>"

definition deck5 :: page where
  "deck5 =
     \<lparr>pageSlides = [plainSlide\<lparr>h1 := Some '' Intro '', active := True\<rparr>, plainSlide,
                     plainSlide\<lparr>h2 := Some ''Agenda''\<rparr>, plainSlide, plainSlide],
      pagePrevBtn = Some \<lparr>disabled = False, opacity = ''1''\<rparr>,
      pageNextBtn = Some \<lparr>disabled = False, opacity = ''1''\<rparr>,
      pageProgressBar = Some (Fin 0),
      pageSlideCounter = Some ''1 / 1'',
      pageTitle = ''Deck'',
      pageTime = 1000\<rparr>"

definition emptyDeck :: page where
  "emptyDeck = deck5\<lparr>pageSlides := []\<rparr>"

definition deck25 :: page where
  "deck25 = deck5\<lparr>pageSlides := replicate 25 plainSlide\<rparr>"


section \<open>Rounding to the nearest double\<close>

lemma bitCount_bounds:
  "0 < n \<Longrightarrow> 0 < bitCount n \<and> 2 ^ (bitCount n - 1) \<le> n \<and> n < 2 ^ bitCount n"
proof (induction n rule: bitCount.induct)
  case (1 n)
  show ?case
  proof (cases "n = 1")
    case True
    have "bitCount 1 = Suc (bitCount 0)" by (subst bitCount.simps) simp
    also have "bitCount 0 = 0" by (subst bitCount.simps) simp
    finally show ?thesis using True by simp
  next
    case False
    with "1.prems" have m: "0 < n div 2" by presburger
    from "1.prems" have "\<not> n \<le> 0" by simp
    note ih = "1.IH" [OF this m]
    have b: "bitCount n = Suc (bitCount (n div 2))"
      using "1.prems" by (subst bitCount.simps) simp
    from ih have "2 ^ bitCount (n div 2) = (2::int) * 2 ^ (bitCount (n div 2) - 1)"
      by (cases "bitCount (n div 2)") simp_all
    also have "\<dots> \<le> 2 * (n div 2)" using ih by simp
    also have "\<dots> \<le> n" by presburger
    finally have lo: "2 ^ bitCount (n div 2) \<le> n" .
    have "n < 2 * (n div 2 + 1)" by presburger
    also have "\<dots> \<le> 2 * 2 ^ bitCount (n div 2)" using ih by simp
    finally have hi: "n < 2 * 2 ^ bitCount (n div 2)" .
    from lo hi show ?thesis by (simp add: b)
  qed
qed

lemma exponent_bounds:
  assumes "0 < x"
  shows "2 powi exponent x \<le> x" and "x < 2 powi (exponent x + 1)"
proof -
  have "2 powi exponent x \<le> x \<and> x < 2 powi (exponent x + 1)"
  proof (cases "1 \<le> x")
    case True
    define n where "n = \<lfloor>x\<rfloor>"
    define b where "b = bitCount n"
    from True have n: "0 < n" by (simp add: n_def)
    from bitCount_bounds [OF n] have b: "0 < b" "2 ^ (b - 1) \<le> n" "n < 2 ^ b"
      by (simp_all add: b_def)
    have e: "exponent x = int (b - 1)" "exponent x + 1 = int b"
      using True b(1) by (simp_all add: exponent_def n_def b_def)
    have "(2::real) ^ (b - 1) = of_int (2 ^ (b - 1))" by simp
    also have "\<dots> \<le> of_int n" using b(2) by (simp only: of_int_le_iff)
    also have "\<dots> \<le> x" by (simp add: n_def)
    finally have lo: "(2::real) ^ (b - 1) \<le> x" .
    have "n + 1 \<le> 2 ^ b" using b(3) by simp
    then have "(of_int (n + 1)::real) \<le> of_int (2 ^ b)" by (simp only: of_int_le_iff)
    moreover have "x < of_int (n + 1)" by (simp add: n_def)
    ultimately have hi: "x < 2 ^ b" by simp
    have "(2::real) powi exponent x = 2 ^ (b - 1)"
      by (simp only: e(1) power_int_of_nat)
    moreover have "(2::real) powi (exponent x + 1) = 2 ^ b"
      by (simp only: e(2) power_int_of_nat)
    ultimately show ?thesis using lo hi by simp
  next
    case False
    define m where "m = \<lceil>1 / x\<rceil> - 1"
    define k where "k = bitCount m"
    from False assms have y: "1 < 1 / x" by simp
    then have m: "0 < m" unfolding m_def by linarith
    from bitCount_bounds [OF m] have k: "0 < k" "2 ^ (k - 1) \<le> m" "m < 2 ^ k"
      by (simp_all add: k_def)
    have e: "exponent x = - int k" using False by (simp add: exponent_def m_def k_def)
    have "m + 1 \<le> 2 ^ k" using k(3) by simp
    then have "(of_int (m + 1)::real) \<le> of_int (2 ^ k)" by (simp only: of_int_le_iff)
    moreover have "1 / x \<le> of_int (m + 1)" unfolding m_def by simp
    ultimately have "1 / x \<le> 2 ^ k" by simp
    then have lo: "1 / 2 ^ k \<le> x" using assms by (simp add: field_simps)
    have "(2::real) ^ (k - 1) = of_int (2 ^ (k - 1))" by simp
    also have "\<dots> \<le> of_int m" using k(2) by (simp only: of_int_le_iff)
    also have "\<dots> < 1 / x" unfolding m_def by linarith
    finally have "(2::real) ^ (k - 1) < 1 / x" .
    then have hi: "x < 1 / 2 ^ (k - 1)" using assms by (simp add: field_simps)
    have p1: "(2::real) powi exponent x = 1 / 2 ^ k"
      by (simp add: e power_int_minus field_simps)
    have e1: "exponent x + 1 = - int (k - 1)" using k(1) by (simp add: e)
    have p2: "(2::real) powi (exponent x + 1) = 1 / 2 ^ (k - 1)"
      by (simp only: e1 power_int_minus power_int_of_nat) (simp add: field_simps)
    from lo hi show ?thesis by (simp only: p1 p2)
  qed
  then show "2 powi exponent x \<le> x" and "x < 2 powi (exponent x + 1)" by simp_all
qed

lemma exponent_unique:
  assumes "0 < x" "2 powi k \<le> x" "x < 2 powi (k + 1)"
  shows "exponent x = k"
proof (rule antisym)
  have "(2::real) powi exponent x < 2 powi (k + 1)"
    using exponent_bounds(1) [OF assms(1)] assms(3) by simp
  then have "exponent x < k + 1"
    by (metis linorder_not_less one_le_numeral power_int_increasing)
  then show "exponent x \<le> k" by simp
  have "(2::real) powi k < 2 powi (exponent x + 1)"
    using exponent_bounds(2) [OF assms(1)] assms(2) by simp
  then have "k < exponent x + 1"
    by (metis linorder_not_less one_le_numeral power_int_increasing)
  then show "k \<le> exponent x" by simp
qed

lemma exponent_mono:
  assumes "0 < x" "x \<le> y"
  shows "exponent x \<le> exponent y"
proof -
  from assms have y: "0 < y" by simp
  have "(2::real) powi exponent x < 2 powi (exponent y + 1)"
    using exponent_bounds(1) [OF assms(1)] exponent_bounds(2) [OF y] assms(2) by simp
  then have "exponent x < exponent y + 1"
    by (metis linorder_not_less one_le_numeral power_int_increasing)
  then show ?thesis by simp
qed

lemma roundHalfEven_bounds: "\<lfloor>z\<rfloor> \<le> roundHalfEven z" "roundHalfEven z \<le> \<lfloor>z\<rfloor> + 1"
  by (simp_all add: roundHalfEven_def Let_def)

lemma roundHalfEven_of_int [simp]: "roundHalfEven (of_int k) = k"
  by (simp add: roundHalfEven_def)

lemma roundHalfEven_zero [simp]: "roundHalfEven 0 = 0"
  by (simp add: roundHalfEven_def)

lemma roundHalfEven_mono:
  assumes "z \<le> z'"
  shows "roundHalfEven z \<le> roundHalfEven z'"
proof (cases "\<lfloor>z\<rfloor> = \<lfloor>z'\<rfloor>")
  case True
  with assms show ?thesis
    by (auto simp add: roundHalfEven_def Let_def)
next
  case False
  with assms have "\<lfloor>z\<rfloor> + 1 \<le> \<lfloor>z'\<rfloor>"
    using floor_mono [of z z'] by linarith
  with roundHalfEven_bounds(2) [of z] roundHalfEven_bounds(1) [of z'] show ?thesis
    by linarith
qed

lemma roundHalfEven_error: "\<bar>of_int (roundHalfEven z) - z\<bar> \<le> 1 / 2"
proof -
  have "of_int \<lfloor>z\<rfloor> \<le> z" "z < of_int \<lfloor>z\<rfloor> + 1" by linarith+
  then show ?thesis
    by (auto simp add: roundHalfEven_def Let_def abs_le_iff)
qed

lemma quantum_pos [simp]: "0 < quantum x"
  by (simp add: quantum_def)

lemma quantum_mono:
  assumes "0 < x" "x \<le> y"
  shows "quantum x \<le> quantum y"
  unfolding quantum_def
  using exponent_mono [OF assms] by (intro power_int_increasing) auto

lemma nearestMagnitude_nonneg: "0 \<le> x \<Longrightarrow> 0 \<le> nearestMagnitude x"
proof -
  assume x: "0 \<le> x"
  have "0 \<le> x / quantum x"
    by (rule divide_nonneg_pos) (use x in simp_all)
  then have "roundHalfEven 0 \<le> roundHalfEven (x / quantum x)"
    by (rule roundHalfEven_mono)
  then show ?thesis by (simp add: nearestMagnitude_def less_imp_le)
qed

text \<open>Rounding never crosses a number of the grid it rounds to.\<close>

lemma nearestMagnitude_le_grid:
  assumes "x \<le> quantum x * of_int k"
  shows "nearestMagnitude x \<le> quantum x * of_int k"
proof -
  from assms have "x / quantum x \<le> of_int k"
    by (simp add: field_simps)
  then have "roundHalfEven (x / quantum x) \<le> roundHalfEven (of_int k)"
    by (rule roundHalfEven_mono)
  then show ?thesis by (simp add: nearestMagnitude_def)
qed

lemma nearestMagnitude_ge_grid:
  assumes "quantum x * of_int k \<le> x"
  shows "quantum x * of_int k \<le> nearestMagnitude x"
proof -
  from assms have "of_int k \<le> x / quantum x"
    by (simp add: field_simps)
  then have "roundHalfEven (of_int k) \<le> roundHalfEven (x / quantum x)"
    by (rule roundHalfEven_mono)
  then show ?thesis by (simp add: nearestMagnitude_def)
qed

lemma nearestMagnitude_exact:
  "x = quantum x * of_int k \<Longrightarrow> nearestMagnitude x = x"
  using nearestMagnitude_le_grid [of x k] nearestMagnitude_ge_grid [of x k] by simp

lemma nearestMagnitude_mono:
  assumes "0 < x" "x \<le> y"
  shows "nearestMagnitude x \<le> nearestMagnitude y"
proof -
  define a where "a = max (exponent x - 52) (- 1074)"
  define b where "b = max (exponent y - 52) (- 1074)"
  from assms have y: "0 < y" by simp
  have ab: "a \<le> b" using exponent_mono [OF assms] by (simp add: a_def b_def)
  have qx: "quantum x = 2 powi a" and qy: "quantum y = 2 powi b"
    by (simp_all add: quantum_def a_def b_def)
  show ?thesis
  proof (cases "a = b")
    case True
    then have "quantum x = quantum y" by (simp add: qx qy)
    moreover have "x / quantum y \<le> y / quantum y"
      by (intro divide_right_mono less_imp_le quantum_pos assms(2))
    then have "roundHalfEven (x / quantum y) \<le> roundHalfEven (y / quantum y)"
      by (rule roundHalfEven_mono)
    ultimately show ?thesis by (simp add: nearestMagnitude_def)
  next
    case False
    with ab have lt: "a < b" by simp
    then have b: "b = exponent y - 52" unfolding a_def b_def by linarith
    from lt have e: "exponent x < exponent y" unfolding a_def b_def by linarith
    define g :: real where "g = 2 powi exponent y"
    have "x < 2 powi (exponent x + 1)" by (rule exponent_bounds(2) [OF assms(1)])
    also have "\<dots> \<le> g" unfolding g_def using e by (intro power_int_increasing) auto
    finally have xg: "x \<le> g" by simp
    have gy: "g \<le> y" unfolding g_def by (rule exponent_bounds(1) [OF y])
    have d: "0 \<le> exponent y - a" using lt b by simp
    have "g = 2 powi (a + (exponent y - a))" by (simp add: g_def)
    also have "\<dots> = 2 powi a * 2 powi (exponent y - a)"
      by (subst power_int_add) simp_all
    also have "(2::real) powi (exponent y - a) = of_int (2 ^ nat (exponent y - a))"
      using d by (simp add: power_int_def)
    finally have gx: "g = quantum x * of_int (2 ^ nat (exponent y - a))" by (simp add: qx)
    have "g = 2 powi (b + 52)" by (simp add: g_def b)
    also have "\<dots> = 2 powi b * 2 powi 52"
      by (subst power_int_add) simp_all
    finally have gq: "g = quantum y * of_int (2 ^ 52)" by (simp add: qy)
    have "nearestMagnitude x \<le> g"
      using nearestMagnitude_le_grid [of x "2 ^ nat (exponent y - a)"] xg gx by simp
    also have "g \<le> nearestMagnitude y"
      using nearestMagnitude_ge_grid [of y "2 ^ 52"] gy gq by simp
    finally show ?thesis .
  qed
qed

lemma toDouble_pos:
  "0 < x \<Longrightarrow> toDouble x
     = (if 2 ^ 1024 \<le> nearestMagnitude x then PosInf else Fin (nearestMagnitude x))"
  by (simp add: toDouble_def Let_def)

lemma toDouble_neg:
  "x < 0 \<Longrightarrow> toDouble x
     = (if 2 ^ 1024 \<le> nearestMagnitude (- x) then NegInf else Fin (- nearestMagnitude (- x)))"
  by (simp add: toDouble_def Let_def)

lemma toDouble_mono:
  assumes "x \<le> y"
  shows "js_le (toDouble x) (toDouble y)"
proof -
  consider "0 < x" | "x = 0" | "x < 0" "y < 0" | "x < 0" "y = 0" | "x < 0" "0 < y"
    by linarith
  then show ?thesis
  proof cases
    case 1
    with assms have y: "0 < y" by simp
    from nearestMagnitude_mono [OF 1 assms] show ?thesis
      by (simp add: toDouble_pos 1 y)
  next
    case 2
    show ?thesis
    proof (cases "y = 0")
      case True
      with 2 show ?thesis by (simp add: toDouble_def)
    next
      case False
      with 2 assms have y: "0 < y" by simp
      from nearestMagnitude_nonneg [of y] y show ?thesis
        by (simp add: toDouble_pos 2 toDouble_def [of 0])
    qed
  next
    case 3
    then have "0 < - y" "- y \<le> - x" using assms by simp_all
    from nearestMagnitude_mono [OF this] show ?thesis
      by (simp add: toDouble_neg 3)
  next
    case 4
    from nearestMagnitude_nonneg [of "- x"] 4 show ?thesis
      by (simp add: toDouble_neg toDouble_def [of 0])
  next
    case 5
    from nearestMagnitude_nonneg [of "- x"] nearestMagnitude_nonneg [of y] 5 show ?thesis
      by (simp add: toDouble_neg toDouble_pos)
  qed
qed

lemma toDouble_exact:
  assumes "0 < x" "x < 2 ^ 1024" "2 powi e \<le> x" "x < 2 powi (e + 1)"
    and "x = 2 powi (max (e - 52) (- 1074)) * of_int k"
  shows "toDouble x = Fin x"
proof -
  have "exponent x = e" by (rule exponent_unique [OF assms(1,3,4)])
  then have "quantum x = 2 powi (max (e - 52) (- 1074))" by (simp add: quantum_def)
  with assms(5) have "nearestMagnitude x = x"
    by (intro nearestMagnitude_exact [of x k]) simp
  with assms(1,2) show ?thesis by (simp add: toDouble_pos)
qed

lemma toDouble_one: "toDouble 1 = Fin 1"
  by (rule toDouble_exact [of 1 0 "2 ^ 52"]) simp_all

lemma toDouble_below_one: "toDouble (1 - 1 / 2 ^ 53) = Fin (1 - 1 / 2 ^ 53)"
  by (rule toDouble_exact [of "1 - 1 / 2 ^ 53" "- 1" "2 ^ 53 - 1"]) simp_all

lemma toDouble_above_one: "toDouble (1 + 1 / 2 ^ 52) = Fin (1 + 1 / 2 ^ 52)"
  by (rule toDouble_exact [of "1 + 1 / 2 ^ 52" 0 "2 ^ 52 + 1"]) simp_all

lemma nearestMagnitude_accurate:
  assumes "2 powi (- 1022) \<le> x"
  shows "\<bar>nearestMagnitude x - x\<bar> \<le> x / 2 ^ 53"
proof -
  have "(0::real) < 2 powi (- 1022)" by simp
  with assms have x: "0 < x" by linarith
  define e where "e = exponent x"
  have lo: "2 powi e \<le> x" and hi: "x < 2 powi (e + 1)"
    unfolding e_def by (rule exponent_bounds [OF x])+
  from assms hi have "(2::real) powi (- 1022) < 2 powi (e + 1)" by linarith
  then have "- 1022 < e + 1"
    by (metis linorder_not_less one_le_numeral power_int_increasing)
  then have "max (e - 52) (- 1074) = e - 52" by linarith
  then have q: "quantum x = 2 powi (e - 52)"
    by (simp only: quantum_def e_def)
  have "(2::real) powi (e - 52) = 2 powi e / 2 powi 52"
    by (subst power_int_diff) simp_all
  then have q': "quantum x = 2 powi e / 2 ^ 52" by (simp add: q)
  define r where "r = roundHalfEven (x / quantum x)"
  have qn: "quantum x \<noteq> 0" by (simp add: quantum_def)
  have "nearestMagnitude x - x = quantum x * (of_int r - x / quantum x)"
    using qn by (simp add: nearestMagnitude_def r_def right_diff_distrib)
  then have "\<bar>nearestMagnitude x - x\<bar> = quantum x * \<bar>of_int r - x / quantum x\<bar>"
    using quantum_pos [of x] by (simp add: abs_mult abs_of_pos del: quantum_pos)
  also have "\<dots> \<le> quantum x * (1 / 2)"
    unfolding r_def by (intro mult_left_mono roundHalfEven_error less_imp_le quantum_pos)
  also have "\<dots> = 2 powi e / 2 ^ 53" by (simp add: q')
  also have "\<dots> \<le> x / 2 ^ 53" using lo by (simp add: divide_right_mono)
  finally show ?thesis .
qed

lemma toDouble_eval:
  assumes "0 < x" "2 powi e \<le> x" "x < 2 powi (e + 1)"
  shows "toDouble x =
    (let q = 2 powi (max (e - 52) (- 1074)); r = q * of_int (roundHalfEven (x / q))
     in if 2 ^ 1024 \<le> r then PosInf else Fin r)"
  using assms(1) exponent_unique [OF assms]
  by (simp add: toDouble_pos nearestMagnitude_def quantum_def Let_def)

lemma toDouble_fifth: "toDouble (1 / 5) = Fin (3602879701896397 / 18014398509481984)"
  by (subst toDouble_eval [of _ "- 3"]) (simp_all add: roundHalfEven_def Let_def)

lemma toDouble_14_25: "toDouble (14 / 25) = Fin (1261007895663739 / 2251799813685248)"
  by (subst toDouble_eval [of _ "- 1"]) (simp_all add: roundHalfEven_def Let_def)

lemma toDouble_56: "toDouble (1261007895663739 / 2251799813685248 * 100) = Fin (56 + 1 / 2 ^ 47)"
  by (subst toDouble_eval [of _ 5]) (simp_all add: roundHalfEven_def Let_def)


section \<open>Basic facts about the presenter and the timers\<close>

lemma updateSlideCounter_fields [simp]:
  "currentSlide (updateSlideCounter s) = currentSlide s"
  "totalSlides (updateSlideCounter s) = totalSlides s"
  "slides (updateSlideCounter s) = slides s"
  "isTransitioning (updateSlideCounter s) = isTransitioning s"
  "clock (updateSlideCounter s) = clock s"
  "timers (updateSlideCounter s) = timers s"
  "touchStartX (updateSlideCounter s) = touchStartX s"
  "touchStartY (updateSlideCounter s) = touchStartY s"
  "touchStartTime (updateSlideCounter s) = touchStartTime s"
  "announcements (updateSlideCounter s) = announcements s"
  "slideCounter (updateSlideCounter s) = map_option (\<lambda>_. counterText s) (slideCounter s)"
  by (simp_all add: updateSlideCounter_def split: option.splits)

lemma updateProgressBar_fields [simp]:
  "currentSlide (updateProgressBar s) = currentSlide s"
  "totalSlides (updateProgressBar s) = totalSlides s"
  "slides (updateProgressBar s) = slides s"
  "isTransitioning (updateProgressBar s) = isTransitioning s"
  "clock (updateProgressBar s) = clock s"
  "timers (updateProgressBar s) = timers s"
  "touchStartX (updateProgressBar s) = touchStartX s"
  "touchStartY (updateProgressBar s) = touchStartY s"
  "touchStartTime (updateProgressBar s) = touchStartTime s"
  "announcements (updateProgressBar s) = announcements s"
  "slideCounter (updateProgressBar s) = slideCounter s"
  by (simp_all add: updateProgressBar_def Let_def split: option.splits)

lemma updateNavigationButtons_fields [simp]:
  "currentSlide (updateNavigationButtons s) = currentSlide s"
  "totalSlides (updateNavigationButtons s) = totalSlides s"
  "slides (updateNavigationButtons s) = slides s"
  "isTransitioning (updateNavigationButtons s) = isTransitioning s"
  "clock (updateNavigationButtons s) = clock s"
  "timers (updateNavigationButtons s) = timers s"
  "touchStartX (updateNavigationButtons s) = touchStartX s"
  "touchStartY (updateNavigationButtons s) = touchStartY s"
  "touchStartTime (updateNavigationButtons s) = touchStartTime s"
  "announcements (updateNavigationButtons s) = announcements s"
  "slideCounter (updateNavigationButtons s) = slideCounter s"
  "progressBar (updateNavigationButtons s) = progressBar s"
  by (simp_all add: updateNavigationButtons_def Let_def split: option.splits)

lemma updateDocumentTitle_fields [simp]:
  "currentSlide (updateDocumentTitle s) = currentSlide s"
  "totalSlides (updateDocumentTitle s) = totalSlides s"
  "slides (updateDocumentTitle s) = slides s"
  "isTransitioning (updateDocumentTitle s) = isTransitioning s"
  "clock (updateDocumentTitle s) = clock s"
  "timers (updateDocumentTitle s) = timers s"
  "touchStartX (updateDocumentTitle s) = touchStartX s"
  "touchStartY (updateDocumentTitle s) = touchStartY s"
  "touchStartTime (updateDocumentTitle s) = touchStartTime s"
  "announcements (updateDocumentTitle s) = announcements s"
  "slideCounter (updateDocumentTitle s) = slideCounter s"
  "progressBar (updateDocumentTitle s) = progressBar s"
  by (simp_all add: updateDocumentTitle_def Let_def)

lemma getSlideTitle_cong:
  "currentSlide s' = currentSlide s \<Longrightarrow> getSlideTitle s' e = getSlideTitle s e"
  by (simp add: getSlideTitle_def cong: option.case_cong)

lemma slideAt_cong: "slides s' = slides s \<Longrightarrow> slideAt s' i = slideAt s i"
  by (simp add: slideAt_def)

lemma announceSlideChange_fields [simp]:
  "currentSlide (announceSlideChange s) = currentSlide s"
  "totalSlides (announceSlideChange s) = totalSlides s"
  "slides (announceSlideChange s) = slides s"
  "isTransitioning (announceSlideChange s) = isTransitioning s"
  "clock (announceSlideChange s) = clock s"
  "timers (announceSlideChange s) = timers s"
  "touchStartX (announceSlideChange s) = touchStartX s"
  "touchStartY (announceSlideChange s) = touchStartY s"
  "touchStartTime (announceSlideChange s) = touchStartTime s"
  "slideCounter (announceSlideChange s) = slideCounter s"
  "progressBar (announceSlideChange s) = progressBar s"
  by (simp_all add: announceSlideChange_def announceToScreenReader_def Let_def)

lemma announcementText_cong:
  "currentSlide s' = currentSlide s \<Longrightarrow> totalSlides s' = totalSlides s \<Longrightarrow>
     slides s' = slides s \<Longrightarrow> announcementText s' = announcementText s"
  unfolding announcementText_def
  by (simp add: getSlideTitle_cong [of s' s] slideAt_cong [of s' s])

lemma announcementText_ui [simp]:
  "announcementText (updateSlideCounter s) = announcementText s"
  "announcementText (updateProgressBar s) = announcementText s"
  "announcementText (updateNavigationButtons s) = announcementText s"
  "announcementText (updateDocumentTitle s) = announcementText s"
  by (rule announcementText_cong; simp)+

lemma announceSlideChange_announcements:
  "announcements (announceSlideChange s) = announcements s @ [announcementText s]"
  by (simp add: announceSlideChange_def announceToScreenReader_def Let_def announcementText_def)

lemma updateUI_nav [simp]:
  "currentSlide (updateUI s) = currentSlide s"
  "totalSlides (updateUI s) = totalSlides s"
  "slides (updateUI s) = slides s"
  "isTransitioning (updateUI s) = isTransitioning s"
  "clock (updateUI s) = clock s"
  "timers (updateUI s) = timers s"
  "touchStartX (updateUI s) = touchStartX s"
  "touchStartY (updateUI s) = touchStartY s"
  "touchStartTime (updateUI s) = touchStartTime s"
  by (simp_all add: updateUI_def)

lemma updateUI_counter:
  "slideCounter (updateUI s) = map_option (\<lambda>_. counterText s) (slideCounter s)"
  by (simp add: updateUI_def)

lemma updateUI_announcements:
  "announcements (updateUI s) = announcements s @ [announcementText s]"
  by (simp add: updateUI_def announceSlideChange_announcements)

lemma updSlide_fields [simp]:
  "currentSlide (updSlide i f s) = currentSlide s"
  "totalSlides (updSlide i f s) = totalSlides s"
  "isTransitioning (updSlide i f s) = isTransitioning s"
  "clock (updSlide i f s) = clock s"
  "timers (updSlide i f s) = timers s"
  "touchStartX (updSlide i f s) = touchStartX s"
  "touchStartY (updSlide i f s) = touchStartY s"
  "touchStartTime (updSlide i f s) = touchStartTime s"
  "slideCounter (updSlide i f s) = slideCounter s"
  "progressBar (updSlide i f s) = progressBar s"
  "prevBtn (updSlide i f s) = prevBtn s"
  "nextBtn (updSlide i f s) = nextBtn s"
  "documentTitle (updSlide i f s) = documentTitle s"
  "announcements (updSlide i f s) = announcements s"
  "length (slides (updSlide i f s)) = length (slides s)"
  by (simp_all add: updSlide_def)

lemma elapse_add: "elapse (m + n) s = elapse n (elapse m s)"
  by (induction m arbitrary: s) simp_all

lemma tick_no_timers: "timers s = [] \<Longrightarrow> tick s = s\<lparr>clock := clock s + 1\<rparr>"
  by (simp add: tick_def)

lemma elapse_no_timers: "timers s = [] \<Longrightarrow> elapse n s = s\<lparr>clock := clock s + int n\<rparr>"
proof (induction n arbitrary: s)
  case 0
  then show ?case by simp
next
  case (Suc n)
  then show ?case by (simp add: tick_no_timers)
qed

lemma tick_wait:
  "timers s = [(d, k)] \<Longrightarrow> clock s + 1 < d \<Longrightarrow> tick s = s\<lparr>clock := clock s + 1\<rparr>"
  by (simp add: tick_def isDue_def)

lemma elapse_wait:
  "timers s = [(d, k)] \<Longrightarrow> clock s + int n < d \<Longrightarrow> elapse n s = s\<lparr>clock := clock s + int n\<rparr>"
proof (induction n arbitrary: s)
  case 0
  then show ?case by simp
next
  case (Suc n)
  from Suc.prems have t: "tick s = s\<lparr>clock := clock s + 1\<rparr>"
    by (intro tick_wait) auto
  have "elapse n (s\<lparr>clock := clock s + 1\<rparr>) = (s\<lparr>clock := clock s + 1\<rparr>)\<lparr>clock := clock (s\<lparr>clock := clock s + 1\<rparr>) + int n\<rparr>"
    using Suc.prems by (intro Suc.IH) auto
  with t show ?case by simp
qed

lemma getSlideTitle_headings:
  "h1 e' = h1 e \<Longrightarrow> h2 e' = h2 e \<Longrightarrow> getSlideTitle s (Some e') = getSlideTitle s (Some e)"
  by (simp add: getSlideTitle_def cong: option.case_cong)

lemma getSlideTitle_updSlide:
  assumes "\<And>e. h1 (f e) = h1 e" "\<And>e. h2 (f e) = h2 e"
  shows "getSlideTitle s' (slideAt (updSlide i f s) j) = getSlideTitle s' (slideAt s j)"
proof (cases "0 \<le> i \<and> i < int (length (slides s))")
  case False
  then have "updSlide i f s = s" by (auto simp add: updSlide_def)
  then show ?thesis by simp
next
  case inr: True
  show ?thesis
  proof (cases "0 \<le> j \<and> j < int (length (slides s))")
    case False
    then have "slideAt (updSlide i f s) j = None" "slideAt s j = None"
      by (auto simp add: slideAt_def)
    then show ?thesis by simp
  next
    case True
    then have "nat j < length (slides s)" by linarith
    then have "slideAt (updSlide i f s) j
        = Some (if nat i = nat j then f (slides s ! nat j) else slides s ! nat j)"
      using True inr by (simp add: slideAt_def updSlide_def nth_list_update)
    moreover have "slideAt s j = Some (slides s ! nat j)"
      using True by (simp add: slideAt_def)
    ultimately show ?thesis
      using getSlideTitle_headings [of "f (slides s ! nat j)" "slides s ! nat j" s'] assms
      by simp
  qed
qed

lemma announcementText_updSlide:
  assumes "\<And>e. h1 (f e) = h1 e" "\<And>e. h2 (f e) = h2 e"
  shows "announcementText (updSlide i f s) = announcementText s"
  unfolding announcementText_def
  by (simp add: getSlideTitle_updSlide [OF assms] getSlideTitle_cong [of "updSlide i f s" s])

lemma runTask_Commit_unfold:
  "runTask (Commit p) s =
     setTimeout 600 Unlock (updateUI
       (updSlide p (\<lambda>e. e\<lparr>prev := False\<rparr>)
          (updSlide (currentSlide s) (\<lambda>e. e\<lparr>active := True, prev := False\<rparr>) s)))"
  by (simp add: Let_def)

lemma setTimeout_fields [simp]:
  "currentSlide (setTimeout d k s) = currentSlide s"
  "totalSlides (setTimeout d k s) = totalSlides s"
  "slides (setTimeout d k s) = slides s"
  "isTransitioning (setTimeout d k s) = isTransitioning s"
  "clock (setTimeout d k s) = clock s"
  "timers (setTimeout d k s) = timers s @ [(clock s + d, k)]"
  "touchStartX (setTimeout d k s) = touchStartX s"
  "touchStartY (setTimeout d k s) = touchStartY s"
  "touchStartTime (setTimeout d k s) = touchStartTime s"
  "slideCounter (setTimeout d k s) = slideCounter s"
  "progressBar (setTimeout d k s) = progressBar s"
  "announcements (setTimeout d k s) = announcements s"
  by (simp_all add: setTimeout_def)

lemma runTask_Commit_fields [simp]:
  "currentSlide (runTask (Commit p) s) = currentSlide s"
  "totalSlides (runTask (Commit p) s) = totalSlides s"
  "isTransitioning (runTask (Commit p) s) = isTransitioning s"
  "clock (runTask (Commit p) s) = clock s"
  "timers (runTask (Commit p) s) = timers s @ [(clock s + 600, Unlock)]"
  "length (slides (runTask (Commit p) s)) = length (slides s)"
  "touchStartX (runTask (Commit p) s) = touchStartX s"
  "touchStartY (runTask (Commit p) s) = touchStartY s"
  "touchStartTime (runTask (Commit p) s) = touchStartTime s"
  by (simp_all add: runTask_Commit_unfold)

lemma runTask_Commit_counter:
  "slideCounter (runTask (Commit p) s) = map_option (\<lambda>_. counterText s) (slideCounter s)"
  by (simp add: runTask_Commit_unfold updateUI_counter counterText_def)



lemma runTask_Commit_announcements:
  "announcements (runTask (Commit p) s) = announcements s @ [announcementText s]"
  by (simp add: runTask_Commit_unfold updateUI_announcements announcementText_updSlide)

declare runTask.simps(1) [simp del]

lemma tick_fire:
  "timers s = [(clock s + 1, k)] \<Longrightarrow>
     tick s = runTask k (s\<lparr>clock := clock s + 1, timers := []\<rparr>)"
  by (simp add: tick_def isDue_def)

lemma elapse_Suc_right: "elapse (Suc n) s = tick (elapse n s)"
  using elapse_add [of n 1 s] by simp

lemma elapse_fire:
  assumes "timers s = [(clock s + int n + 1, k)]"
  shows "elapse (Suc n) s = runTask k (s\<lparr>clock := clock s + int n + 1, timers := []\<rparr>)"
proof -
  have w: "elapse n s = s\<lparr>clock := clock s + int n\<rparr>"
    by (rule elapse_wait [OF assms]) simp
  have "tick (s\<lparr>clock := clock s + int n\<rparr>)
      = runTask k (s\<lparr>clock := clock s + int n\<rparr>\<lparr>clock := clock (s\<lparr>clock := clock s + int n\<rparr>) + 1, timers := []\<rparr>)"
    by (rule tick_fire) (simp add: assms)
  then show ?thesis
    by (simp add: elapse_Suc_right w del: elapse.simps)
qed

lemma goToSlide_rejected:
  "isTransitioning s \<or> i < 0 \<or> totalSlides s \<le> i \<or> i = currentSlide s \<Longrightarrow> goToSlide i s = s"
  by (simp add: goToSlide_def)

lemma goToSlide_accepted_unfold:
  assumes "\<not> isTransitioning s" "0 \<le> i" "i < totalSlides s" "i \<noteq> currentSlide s"
  shows "goToSlide i s =
     setTimeout 50 (Commit (currentSlide s))
       ((updSlide (currentSlide s) (\<lambda>e. e\<lparr>prev := (i < currentSlide s)\<rparr>)
          (updSlide (currentSlide s) (\<lambda>e. e\<lparr>active := False\<rparr>)
             (s\<lparr>isTransitioning := True\<rparr>)))\<lparr>currentSlide := i\<rparr>)"
  using assms by (simp add: goToSlide_def Let_def)

lemma goToSlide_accepted:
  assumes "\<not> isTransitioning s" "0 \<le> i" "i < totalSlides s" "i \<noteq> currentSlide s"
  shows "currentSlide (goToSlide i s) = i"
    and "isTransitioning (goToSlide i s)"
    and "totalSlides (goToSlide i s) = totalSlides s"
    and "clock (goToSlide i s) = clock s"
    and "timers (goToSlide i s) = timers s @ [(clock s + 50, Commit (currentSlide s))]"
    and "slideCounter (goToSlide i s) = slideCounter s"
    and "progressBar (goToSlide i s) = progressBar s"
    and "announcements (goToSlide i s) = announcements s"
    and "length (slides (goToSlide i s)) = length (slides s)"
    and "touchStartX (goToSlide i s) = touchStartX s"
    and "touchStartY (goToSlide i s) = touchStartY s"
    and "touchStartTime (goToSlide i s) = touchStartTime s"
  by (simp_all add: goToSlide_accepted_unfold [OF assms])

lemma transition_phases:
  assumes idle: "\<not> isTransitioning s" "timers s = []"
    and acc: "0 \<le> i" "i < totalSlides s" "i \<noteq> currentSlide s"
  defines "g \<equiv> goToSlide i s"
  defines "c \<equiv> runTask (Commit (currentSlide s)) (g\<lparr>clock := clock s + 50, timers := []\<rparr>)"
  shows "elapse n g =
           (if n < 50 then g\<lparr>clock := clock s + int n\<rparr>
            else if n < 650 then c\<lparr>clock := clock s + int n\<rparr>
            else c\<lparr>clock := clock s + int n, timers := [], isTransitioning := False\<rparr>)"
proof -
  have tg: "timers g = [(clock s + 50, Commit (currentSlide s))]" and cg: "clock g = clock s"
    unfolding g_def using goToSlide_accepted [OF idle(1) acc] idle(2) by simp_all
  have p1: "elapse m g = g\<lparr>clock := clock s + int m\<rparr>" if "m < 50" for m
    using elapse_wait [OF tg, of m] that cg by simp
  have "elapse (Suc 49) g = runTask (Commit (currentSlide s)) (g\<lparr>clock := clock g + int 49 + 1, timers := []\<rparr>)"
    by (rule elapse_fire) (simp add: tg cg)
  then have e50: "elapse 50 g = c"
    by (simp add: c_def cg add.commute del: elapse.simps)
  have tc: "timers c = [(clock s + 650, Unlock)]" and cc: "clock c = clock s + 50"
    unfolding c_def by simp_all
  have w2: "elapse m c = c\<lparr>clock := clock c + int m\<rparr>" if "m < 600" for m
    by (rule elapse_wait [OF tc]) (use that cc in simp)
  have p2: "elapse (50 + m) g = c\<lparr>clock := clock s + int (50 + m)\<rparr>" if "m < 600" for m
    using w2 [OF that] by (simp add: elapse_add e50 cc del: elapse.simps)
  have "elapse (Suc 599) c = runTask Unlock (c\<lparr>clock := clock c + int 599 + 1, timers := []\<rparr>)"
    by (rule elapse_fire) (simp add: tc cc)
  then have e600: "elapse 600 c = c\<lparr>clock := clock s + 650, timers := [], isTransitioning := False\<rparr>"
    by (simp add: cc add.commute del: elapse.simps)
  have e650: "elapse 650 g = c\<lparr>clock := clock s + 650, timers := [], isTransitioning := False\<rparr>"
    using elapse_add [of 50 600 g] e50 e600 by (simp del: elapse.simps)
  have p3: "elapse (650 + m) g
      = c\<lparr>clock := clock s + int (650 + m), timers := [], isTransitioning := False\<rparr>" for m
    using elapse_no_timers [of "c\<lparr>clock := clock s + 650, timers := [], isTransitioning := False\<rparr>" m]
    by (simp add: elapse_add e650 add.assoc del: elapse.simps)
  show ?thesis
  proof (cases "n < 50")
    case True
    then show ?thesis using p1 by simp
  next
    case False
    show ?thesis
    proof (cases "n < 650")
      case True
      with \<open>\<not> n < 50\<close> p2 [of "n - 50"] show ?thesis by simp
    next
      case False
      with p3 [of "n - 650"] show ?thesis by simp
    qed
  qed
qed


section \<open>The invariant holds in every run\<close>

lemma counterText_cong:
  "currentSlide s' = currentSlide s \<Longrightarrow> totalSlides s' = totalSlides s \<Longrightarrow>
     counterText s' = counterText s"
  by (simp add: counterText_def)

lemma counterInSync_cong:
  "currentSlide s' = currentSlide s \<Longrightarrow> totalSlides s' = totalSlides s \<Longrightarrow>
     slideCounter s' = slideCounter s \<Longrightarrow> counterInSync s' = counterInSync s"
  by (simp add: counterInSync_def counterText_def)

lemma consistent_cong:
  assumes "currentSlide s' = currentSlide s" "totalSlides s' = totalSlides s"
    "slideCounter s' = slideCounter s" "isTransitioning s' = isTransitioning s"
    "timers s' = timers s" "clock s' = clock s"
  shows "consistent p s' = consistent p s"
  using assms counterInSync_cong [of s' s] by (simp add: consistent_def)

lemma counterInSync_updateUI: "counterInSync (updateUI s)"
  using counterText_cong [of "updateUI s" s]
  by (simp add: counterInSync_def updateUI_counter option.map_comp comp_def)

lemma counterInSync_Commit: "counterInSync (runTask (Commit q) s)"
proof -
  let ?u = "updateUI (updSlide q (\<lambda>e. e\<lparr>prev := False\<rparr>)
          (updSlide (currentSlide s) (\<lambda>e. e\<lparr>active := True, prev := False\<rparr>) s))"
  have "counterInSync (setTimeout 600 Unlock ?u) = counterInSync ?u"
    by (rule counterInSync_cong) simp_all
  then show ?thesis
    by (simp add: runTask_Commit_unfold counterInSync_updateUI)
qed

lemma consistent_init: "consistent p (init p)"
  by (simp add: consistent_def init_def setupElements_def constructor_def counterInSync_def
      counterText_def option.map_comp comp_def)

lemma consistent_goToSlide:
  assumes "consistent p s"
  shows "consistent p (goToSlide i s)"
proof (cases "isTransitioning s \<or> i < 0 \<or> totalSlides s \<le> i \<or> i = currentSlide s")
  case True
  then show ?thesis using assms by (simp add: goToSlide_rejected)
next
  case False
  then have acc: "\<not> isTransitioning s" "0 \<le> i" "i < totalSlides s" "i \<noteq> currentSlide s"
    by auto
  from assms acc(1) have "timers s = []" by (simp add: consistent_def)
  with assms acc show ?thesis
    by (simp add: consistent_def goToSlide_accepted [OF acc])
qed

lemma consistent_nextSlide: "consistent p s \<Longrightarrow> consistent p (nextSlide s)"
  by (simp add: nextSlide_def consistent_goToSlide)

lemma consistent_previousSlide: "consistent p s \<Longrightarrow> consistent p (previousSlide s)"
  by (simp add: previousSlide_def consistent_goToSlide)

lemma consistent_perform: "consistent p s \<Longrightarrow> consistent p (perform k s)"
  by (cases k)
    (simp_all add: consistent_nextSlide consistent_previousSlide consistent_goToSlide
      resetPresentation_def)

lemma consistent_touch_fields:
  "consistent p (s\<lparr>touchStartX := x, touchStartY := y\<rparr>) = consistent p s"
  by (rule consistent_cong) simp_all

lemma consistent_handleTouchStart: "consistent p s \<Longrightarrow> consistent p (handleTouchStart x y s)"
  using consistent_cong [of "handleTouchStart x y s" s p] by (simp add: handleTouchStart_def)

lemma consistent_handleTouchEnd:
  "consistent p s \<Longrightarrow> consistent p (snd (handleTouchEnd x y s))"
  by (simp add: handleTouchEnd_def Let_def consistent_touch_fields consistent_nextSlide
      consistent_previousSlide)

lemma consistent_updateUI:
  assumes "consistent p s"
  shows "consistent p (updateUI s)"
proof -
  have "slideCounter (updateUI s) = None \<longleftrightarrow> slideCounter s = None"
    by (simp add: updateUI_counter)
  with assms counterInSync_updateUI [of s] show ?thesis
    by (auto simp add: consistent_def)
qed

lemma consistent_tick:
  assumes "consistent p s"
  shows "consistent p (tick s)"
proof (cases "isTransitioning s")
  case False
  with assms have "timers s = []" by (simp add: consistent_def)
  then have "tick s = s\<lparr>clock := clock s + 1\<rparr>" by (rule tick_no_timers)
  moreover have "consistent p (s\<lparr>clock := clock s + 1\<rparr>)"
    using assms False counterInSync_cong [of "s\<lparr>clock := clock s + 1\<rparr>" s]
    by (auto simp add: consistent_def)
  ultimately show ?thesis by simp
next
  case True
  with assms obtain d k where t: "timers s = [(d, k)]" and d: "clock s < d"
    and k: "k = Unlock \<and> counterInSync s \<or> (\<exists>q. k = Commit q)"
    by (auto simp add: consistent_def)
  show ?thesis
  proof (cases "clock s + 1 < d")
    case wait: True
    then have "tick s = s\<lparr>clock := clock s + 1\<rparr>" using t by (intro tick_wait)
    moreover have "consistent p (s\<lparr>clock := clock s + 1\<rparr>)"
      using assms True t wait k counterInSync_cong [of "s\<lparr>clock := clock s + 1\<rparr>" s]
      by (auto simp add: consistent_def)
    ultimately show ?thesis by simp
  next
    case False
    with d have "d = clock s + 1" by simp
    with t have fire: "tick s = runTask k (s\<lparr>clock := clock s + 1, timers := []\<rparr>)"
      by (intro tick_fire) simp
    let ?x = "s\<lparr>clock := clock s + 1, timers := []\<rparr>"
    from k show ?thesis
    proof
      assume u: "k = Unlock \<and> counterInSync s"
      then have "counterInSync (runTask k ?x)"
        using counterInSync_cong [of "runTask Unlock ?x" s] by simp
      with assms u fire show ?thesis by (auto simp add: consistent_def)
    next
      assume "\<exists>q. k = Commit q"
      then obtain q where q: "k = Commit q" ..
      have "slideCounter (runTask (Commit q) ?x) = None \<longleftrightarrow> slideCounter s = None"
        by (simp add: runTask_Commit_counter)
      with assms True fire q counterInSync_Commit [of q ?x] show ?thesis
        by (auto simp add: consistent_def)
    qed
  qed
qed

lemma consistent_elapse: "consistent p s \<Longrightarrow> consistent p (elapse n s)"
  by (induction n arbitrary: s) (simp_all add: consistent_tick)

lemma consistent_step: "consistent p s \<Longrightarrow> consistent p (step e s)"
  by (cases e)
    (simp_all add: consistent_perform consistent_handleTouchStart consistent_handleTouchEnd
      consistent_updateUI consistent_elapse handleResize_def)

lemma consistent_run: "consistent p s \<Longrightarrow> consistent p (run evs s)"
  unfolding run_def by (induction evs arbitrary: s) (simp_all add: consistent_step)

lemma consistent_reachable: "consistent p (run evs (init p))"
  by (simp add: consistent_run consistent_init)


section \<open>One transition, from acceptance to unlock\<close>

lemma title_by_headings:
  assumes h: "headings s' = headings s" and c: "currentSlide s' = currentSlide s"
  shows "getSlideTitle s' (slideAt s' j) = getSlideTitle s (slideAt s j)"
proof -
  from h have len: "length (slides s') = length (slides s)"
    unfolding headings_def by (rule map_eq_imp_length_eq)
  show ?thesis
  proof (cases "0 \<le> j \<and> j < int (length (slides s))")
    case False
    with len have "slideAt s' j = None" "slideAt s j = None"
      by (auto simp add: slideAt_def)
    then show ?thesis by (simp add: getSlideTitle_cong [OF c])
  next
    case True
    then have n: "nat j < length (slides s)" by linarith
    from h have "map (\<lambda>e. (h1 e, h2 e)) (slides s') ! nat j = map (\<lambda>e. (h1 e, h2 e)) (slides s) ! nat j"
      by (simp add: headings_def)
    with n len have "h1 (slides s' ! nat j) = h1 (slides s ! nat j)"
      "h2 (slides s' ! nat j) = h2 (slides s ! nat j)"
      by simp_all
    then have "getSlideTitle s (Some (slides s' ! nat j)) = getSlideTitle s (Some (slides s ! nat j))"
      by (rule getSlideTitle_headings)
    moreover have "slideAt s' j = Some (slides s' ! nat j)" "slideAt s j = Some (slides s ! nat j)"
      using True len by (simp_all add: slideAt_def)
    ultimately show ?thesis by (simp add: getSlideTitle_cong [OF c])
  qed
qed

lemma announcementText_by_headings:
  assumes "headings s' = headings s" "currentSlide s' = currentSlide s"
    "totalSlides s' = totalSlides s"
  shows "announcementText s' = announcementText s"
  unfolding announcementText_def
  using title_by_headings [OF assms(1,2), of "currentSlide s"] assms(2,3) by simp

lemma headings_updSlide:
  assumes "\<And>e. h1 (f e) = h1 e" "\<And>e. h2 (f e) = h2 e"
  shows "headings (updSlide i f s) = headings s"
proof (cases "0 \<le> i \<and> i < int (length (slides s))")
  case False
  then have "updSlide i f s = s" by (auto simp add: updSlide_def)
  then show ?thesis by simp
next
  case True
  then have "nat i < length (slides s)" by linarith
  then have "(map (\<lambda>e. (h1 e, h2 e)) (slides s))[nat i := (h1 (slides s ! nat i), h2 (slides s ! nat i))]
      = map (\<lambda>e. (h1 e, h2 e)) (slides s)"
    by (simp add: list_update_same_conv)
  with True show ?thesis
    by (simp add: headings_def updSlide_def map_update assms)
qed

lemma headings_goToSlide: "headings (goToSlide i s) = headings s"
proof (cases "isTransitioning s \<or> i < 0 \<or> totalSlides s \<le> i \<or> i = currentSlide s")
  case True
  then show ?thesis by (simp add: goToSlide_rejected)
next
  case False
  then have acc: "\<not> isTransitioning s" "0 \<le> i" "i < totalSlides s" "i \<noteq> currentSlide s"
    by auto
  have "headings (goToSlide i s)
      = headings (updSlide (currentSlide s) (\<lambda>e. e\<lparr>prev := (i < currentSlide s)\<rparr>)
          (updSlide (currentSlide s) (\<lambda>e. e\<lparr>active := False\<rparr>)
             (s\<lparr>isTransitioning := True\<rparr>)))"
    by (simp add: goToSlide_accepted_unfold [OF acc] headings_def setTimeout_def)
  also have "\<dots> = headings (s\<lparr>isTransitioning := True\<rparr>)"
    by (simp add: headings_updSlide)
  finally show ?thesis by (simp add: headings_def)
qed

lemma init_fields:
  "currentSlide (init p) = 0" "totalSlides (init p) = int (length (pageSlides p))"
  "\<not> isTransitioning (init p)" "timers (init p) = []" "clock (init p) = pageTime p"
  "slides (init p) = pageSlides p"
  by (simp_all add: init_def setupElements_def constructor_def)

lemma settle:
  assumes "\<not> isTransitioning s" "timers s = []" "0 \<le> i" "i < totalSlides s" "i \<noteq> currentSlide s"
  shows "currentSlide (elapse 650 (goToSlide i s)) = i"
    and "\<not> isTransitioning (elapse 650 (goToSlide i s))"
    and "timers (elapse 650 (goToSlide i s)) = []"
    and "totalSlides (elapse 650 (goToSlide i s)) = totalSlides s"
  using goToSlide_accepted [OF assms(1,3,4,5)]
  by (simp_all add: transition_phases [OF assms, of 650])

lemma idle_no_timers: "consistent p s \<Longrightarrow> \<not> isTransitioning s \<Longrightarrow> timers s = []"
  by (simp add: consistent_def)

lemma map_option_const_cong:
  "(a = None \<longleftrightarrow> b = None) \<Longrightarrow> map_option (\<lambda>_. c) a = map_option (\<lambda>_. c) b"
  by (cases a; cases b) simp_all


section \<open>The claims\<close>

text \<open>
  The claims C1 to C10 about the navigator, the presenter and the gesture interpreter, each
  stated for the functions above. Where a claim does not hold as written, the statement the
  code satisfies is proved and the input at which the written claim fails is given.
\<close>

subsection \<open>Facts about the two example pages\<close>

lemma demo_pages:
  "pageSlides deck5 \<noteq> []" "length (pageSlides deck5) = 5" "pageSlides emptyDeck = []"
  "pageSlideCounter deck5 = Some ''1 / 1''"
  by (simp_all add: deck5_def emptyDeck_def)

lemma init_emptyDeck:
  "totalSlides (init emptyDeck) = 0" "currentSlide (init emptyDeck) = 0"
  "isTransitioning (init emptyDeck) = False"
  by (simp_all add: init_def setupElements_def constructor_def emptyDeck_def)

lemma init_deck5:
  "totalSlides (init deck5) = 5" "currentSlide (init deck5) = 0"
  "isTransitioning (init deck5) = False" "timers (init deck5) = []" "clock (init deck5) = 1000"
  by (simp_all add: init_def setupElements_def constructor_def deck5_def)

lemma deck5_after_next:
  "currentSlide (run [Call Next, Elapse 650] (init deck5)) = 1"
  "\<not> isTransitioning (run [Call Next, Elapse 650] (init deck5))"
  "totalSlides (run [Call Next, Elapse 650] (init deck5)) = 5"
proof -
  have a: "\<not> isTransitioning (init deck5)" "timers (init deck5) = []" "(0::int) \<le> 1"
    "1 < totalSlides (init deck5)" "1 \<noteq> currentSlide (init deck5)"
    by (simp_all add: init_deck5)
  have "run [Call Next, Elapse 650] (init deck5) = elapse 650 (goToSlide 1 (init deck5))"
    by (simp add: run_def nextSlide_def init_deck5 del: elapse.simps)
  then show "currentSlide (run [Call Next, Elapse 650] (init deck5)) = 1"
    "\<not> isTransitioning (run [Call Next, Elapse 650] (init deck5))"
    "totalSlides (run [Call Next, Elapse 650] (init deck5)) = 5"
    using settle [OF a] by (simp_all add: init_deck5)
qed

lemma show_digits:
  "showInt 1 = ''1''" "showInt 2 = ''2''" "showInt 3 = ''3''" "showInt 4 = ''4''"
  "showInt 5 = ''5''"
  by (simp_all add: showInt_def showNat.simps digitChar_def)

subsection \<open>C1: the index stays in range\<close>

text \<open>
  C1 (as amended). In every run of the controller from start-up on a page with at least one
  slide, through navigation calls, touches, resizes and the passing of time, the index
  satisfies \<open>0 \<le> currentSlide < totalSlides\<close> in every state. On a page without slides
  the index stays 0 and \<open>totalSlides\<close> is 0. From any state, an accepted
  \<open>goToSlide targetIndex\<close> leaves \<open>currentSlide = targetIndex\<close>, which is inside
  \<open>[0, totalSlides)\<close>.
\<close>

theorem index_stays_in_range:
  "(pageSlides p \<noteq> [] \<longrightarrow>
      0 \<le> currentSlide (run evs (init p))
      \<and> currentSlide (run evs (init p)) < totalSlides (run evs (init p)))
   \<and> (pageSlides p = [] \<longrightarrow>
      currentSlide (run evs (init p)) = 0 \<and> totalSlides (run evs (init p)) = 0)
   \<and> (\<not> isTransitioning s \<and> 0 \<le> targetIndex \<and> targetIndex < totalSlides s
        \<and> targetIndex \<noteq> currentSlide s \<longrightarrow>
      currentSlide (goToSlide targetIndex s) = targetIndex
      \<and> 0 \<le> currentSlide (goToSlide targetIndex s)
      \<and> currentSlide (goToSlide targetIndex s) < totalSlides (goToSlide targetIndex s))"
proof -
  have "consistent p (run evs (init p))" by (rule consistent_reachable)
  then have "pageSlides p \<noteq> [] \<longrightarrow>
      0 \<le> currentSlide (run evs (init p))
      \<and> currentSlide (run evs (init p)) < totalSlides (run evs (init p))"
    and "pageSlides p = [] \<longrightarrow>
      currentSlide (run evs (init p)) = 0 \<and> totalSlides (run evs (init p)) = 0"
    by (auto simp add: consistent_def)
  moreover have "\<not> isTransitioning s \<and> 0 \<le> targetIndex \<and> targetIndex < totalSlides s
        \<and> targetIndex \<noteq> currentSlide s \<longrightarrow>
      currentSlide (goToSlide targetIndex s) = targetIndex
      \<and> 0 \<le> currentSlide (goToSlide targetIndex s)
      \<and> currentSlide (goToSlide targetIndex s) < totalSlides (goToSlide targetIndex s)"
    by (simp add: goToSlide_accepted)
  ultimately show ?thesis by blast
qed

text \<open>
  C1 as written, \<open>0 \<le> currentSlide < totalSlides\<close> at all times after initialisation,
  fails on a page without slides: the constructor sets \<open>currentSlide = 0\<close> and
  \<open>setupElements\<close> finds \<open>totalSlides = 0\<close>.
\<close>

theorem index_range_empty_deck_counterexample:
  "\<not> (0 \<le> currentSlide (run [] (init emptyDeck))
      \<and> currentSlide (run [] (init emptyDeck)) < totalSlides (run [] (init emptyDeck)))"
  by (simp add: run_def init_emptyDeck)

theorem index_stays_in_range_witness:
  "pageSlides deck5 \<noteq> []
   \<and> 0 \<le> currentSlide (run [Call Next, Elapse 20, Call (GoTo 4), Elapse 700, Resize, Call Previous] (init deck5))
   \<and> currentSlide (run [Call Next, Elapse 20, Call (GoTo 4), Elapse 700, Resize, Call Previous] (init deck5))
       < totalSlides (run [Call Next, Elapse 20, Call (GoTo 4), Elapse 700, Resize, Call Previous] (init deck5))
   \<and> pageSlides emptyDeck = []
   \<and> currentSlide (run [Call Next, Elapse 700] (init emptyDeck)) = 0
   \<and> currentSlide (goToSlide 3 (init deck5)) = 3
   \<and> currentSlide (goToSlide 3 (init deck5)) < totalSlides (goToSlide 3 (init deck5))"
  using index_stays_in_range [of deck5
      "[Call Next, Elapse 20, Call (GoTo 4), Elapse 700, Resize, Call Previous]" "init deck5" 3]
    index_stays_in_range [of emptyDeck "[Call Next, Elapse 700]" "init deck5" 3]
  by (simp add: init_deck5 demo_pages)

subsection \<open>C2: when the index is assigned and when the flag is cleared\<close>

text \<open>
  C2 (as amended). Let a \<open>goToSlide targetIndex\<close> be accepted in an idle state \<open>s\<close> of a
  run, and let \<open>n\<close> milliseconds pass. The index equals \<open>targetIndex\<close> for every \<open>n\<close>,
  from the moment of acceptance (\<open>n = 0\<close>). The derived projections are emitted by the
  first callback, 50 ms after acceptance: before that the announcements and the counter text
  are those of \<open>s\<close>, from then on one announcement naming the new index and its title has
  been added and the counter shows the new index. The flag \<open>isTransitioning\<close> is set
  exactly while \<open>n < 650\<close>: it is cleared 600 ms after the first callback.
\<close>

theorem transition_timing:
  assumes "s = run evs (init p)" "\<not> isTransitioning s"
    and "0 \<le> targetIndex" "targetIndex < totalSlides s" "targetIndex \<noteq> currentSlide s"
  shows "currentSlide (elapse n (goToSlide targetIndex s)) = targetIndex
    \<and> announcements (elapse n (goToSlide targetIndex s)) =
        (if n < 50 then announcements s
         else announcements s @ [announcementText (s\<lparr>currentSlide := targetIndex\<rparr>)])
    \<and> slideCounter (elapse n (goToSlide targetIndex s)) =
        (if n < 50 then slideCounter s
         else map_option (\<lambda>_. showInt (targetIndex + 1) @ '' / '' @ showInt (totalSlides s))
                (slideCounter s))
    \<and> (isTransitioning (elapse n (goToSlide targetIndex s)) \<longleftrightarrow> n < 650)"
proof -
  have idle: "\<not> isTransitioning s" "timers s = []"
    using assms(1,2) idle_no_timers [OF consistent_reachable [of p evs]] by simp_all
  note acc = assms(3-5)
  note g = goToSlide_accepted [OF idle(1) acc]
  let ?x = "(goToSlide targetIndex s)\<lparr>clock := clock s + 50, timers := []\<rparr>"
  have msg: "announcementText ?x = announcementText (s\<lparr>currentSlide := targetIndex\<rparr>)"
    by (rule announcementText_by_headings) (simp_all add: g headings_def [of ?x]
        headings_goToSlide [unfolded headings_def] headings_def [of "s\<lparr>currentSlide := targetIndex\<rparr>"])
  have cnt: "counterText ?x = showInt (targetIndex + 1) @ '' / '' @ showInt (totalSlides s)"
    by (simp add: counterText_def g)
  show ?thesis
    by (simp add: transition_phases [OF idle acc, of n] g runTask_Commit_announcements
        runTask_Commit_counter msg cnt)
qed

text \<open>
  C2 as written says that the index is assigned only at the commit step and that before it
  the observable index is still the one from before acceptance. In \<open>goToSlide\<close> the
  assignment \<open>this.currentSlide = slideIndex\<close> comes before \<open>setTimeout\<close>: ten
  milliseconds after \<open>goToSlide 3\<close> on the five-slide page the first callback is still
  pending and the index is 3 already, not 0.
\<close>

theorem index_assigned_before_commit_counterexample:
  "timers (elapse 10 (goToSlide 3 (init deck5))) = [(1050, Commit 0)]
   \<and> currentSlide (elapse 10 (goToSlide 3 (init deck5))) = 3
   \<and> currentSlide (elapse 10 (goToSlide 3 (init deck5))) \<noteq> currentSlide (init deck5)"
proof -
  have a: "\<not> isTransitioning (init deck5)" "timers (init deck5) = []" "(0::int) \<le> 3"
    "3 < totalSlides (init deck5)" "3 \<noteq> currentSlide (init deck5)"
    by (simp_all add: init_deck5)
  show ?thesis
    using goToSlide_accepted [OF a(1,3,4,5)]
    by (simp add: transition_phases [OF a, of 10] init_deck5)
qed

theorem transition_timing_witness:
  "currentSlide (elapse 0 (goToSlide 3 (run [Call Next, Elapse 650] (init deck5)))) = 3
   \<and> isTransitioning (elapse 649 (goToSlide 3 (run [Call Next, Elapse 650] (init deck5))))
   \<and> \<not> isTransitioning (elapse 650 (goToSlide 3 (run [Call Next, Elapse 650] (init deck5))))
   \<and> announcements (elapse 49 (goToSlide 3 (run [Call Next, Elapse 650] (init deck5))))
       = announcements (run [Call Next, Elapse 650] (init deck5))
   \<and> length (announcements (elapse 50 (goToSlide 3 (run [Call Next, Elapse 650] (init deck5)))))
       = Suc (length (announcements (run [Call Next, Elapse 650] (init deck5))))"
proof -
  let ?s = "run [Call Next, Elapse 650] (init deck5)"
  have h: "?s = run [Call Next, Elapse 650] (init deck5)" "\<not> isTransitioning ?s"
    "(0::int) \<le> 3" "3 < totalSlides ?s" "3 \<noteq> currentSlide ?s"
    by (simp_all add: deck5_after_next del: elapse.simps)
  show ?thesis
    using transition_timing [OF h, of 0] transition_timing [OF h, of 649]
      transition_timing [OF h, of 650] transition_timing [OF h, of 49]
      transition_timing [OF h, of 50]
    by (simp del: elapse.simps)
qed

subsection \<open>C3: the progress fraction\<close>

text \<open>
  C3 (as amended). Whenever \<open>totalSlides \<noteq> 0\<close> the progress fraction is the quotient
  \<open>(currentSlide + 1) / totalSlides\<close> of JavaScript's numbers: the exact quotient rounded to
  the nearest double. For an index in range, and no more than \<open>2^52\<close> slides, it is finite
  and differs from the exact quotient by at most the fraction \<open>2^(-53)\<close> of it, and
  \<open>updateProgressBar\<close> assigns the fraction times 100, rounded again, to the bar, if the
  page has a bar. The division is not guarded: with \<open>totalSlides = 0\<close> and a non-negative
  index the fraction is \<open>Infinity\<close>.
\<close>

theorem progress_fraction_value:
  "(totalSlides s \<noteq> 0 \<longrightarrow>
      progressFraction s
        = toDouble (real_of_int (currentSlide s + 1) / real_of_int (totalSlides s)))
   \<and> (0 \<le> currentSlide s \<and> currentSlide s < totalSlides s \<and> totalSlides s \<le> 2 ^ 52 \<longrightarrow>
      (\<exists>f. progressFraction s = Fin f
         \<and> \<bar>f - real_of_int (currentSlide s + 1) / real_of_int (totalSlides s)\<bar>
            \<le> real_of_int (currentSlide s + 1) / real_of_int (totalSlides s) / 2 ^ 53
         \<and> progressBar (updateProgressBar s)
            = map_option (\<lambda>_. toDouble (f * 100)) (progressBar s)))
   \<and> (totalSlides s = 0 \<and> 0 \<le> currentSlide s \<longrightarrow> progressFraction s = PosInf)"
proof (intro conjI impI)
  assume "totalSlides s \<noteq> 0"
  then show "progressFraction s
      = toDouble (real_of_int (currentSlide s + 1) / real_of_int (totalSlides s))"
    by (simp add: progressFraction_def js_div_def)
next
  assume a: "0 \<le> currentSlide s \<and> currentSlide s < totalSlides s \<and> totalSlides s \<le> 2 ^ 52"
  define x where "x = real_of_int (currentSlide s + 1) / real_of_int (totalSlides s)"
  from a have "real_of_int (totalSlides s) \<le> real_of_int (2 ^ 52)"
    by (simp only: of_int_le_iff)
  with a have t: "0 < totalSlides s" "real_of_int (totalSlides s) \<le> 2 ^ 52"
    by simp_all
  from a have c: "1 \<le> real_of_int (currentSlide s + 1)"
    "real_of_int (currentSlide s + 1) \<le> real_of_int (totalSlides s)"
    by simp_all
  have "1 / 2 ^ 52 \<le> 1 / real_of_int (totalSlides s)"
    using t by (intro divide_left_mono) simp_all
  also have "\<dots> \<le> x" unfolding x_def using c(1) t(1) by (intro divide_right_mono) simp_all
  finally have lo: "1 / 2 ^ 52 \<le> x" .
  have hi: "x \<le> 1" unfolding x_def using c(2) t(1) by simp
  have "(2::real) powi (- 1022) \<le> 1 / 2 ^ 52"
    by (simp add: power_int_minus field_simps)
  with lo have "2 powi (- 1022) \<le> x" by linarith
  then have acc: "\<bar>nearestMagnitude x - x\<bar> \<le> x / 2 ^ 53"
    by (rule nearestMagnitude_accurate)
  have "(0::real) < 1 / 2 ^ 52" by simp
  with lo have pos: "0 < x" by linarith
  have "x / 2 ^ 53 \<le> 1" using hi pos by (simp add: field_simps)
  with acc hi have "nearestMagnitude x \<le> 2" by linarith
  also have "(2::real) < 2 ^ 1024" by simp
  finally have "toDouble x = Fin (nearestMagnitude x)" using pos by (simp add: toDouble_pos)
  moreover have "progressFraction s = toDouble x"
    using t(1) by (simp add: progressFraction_def js_div_def x_def)
  ultimately have pf: "progressFraction s = Fin (nearestMagnitude x)" by simp
  show "\<exists>f. progressFraction s = Fin f
      \<and> \<bar>f - real_of_int (currentSlide s + 1) / real_of_int (totalSlides s)\<bar>
         \<le> real_of_int (currentSlide s + 1) / real_of_int (totalSlides s) / 2 ^ 53
      \<and> progressBar (updateProgressBar s)
         = map_option (\<lambda>_. toDouble (f * 100)) (progressBar s)"
  proof (intro exI conjI)
    show "progressFraction s = Fin (nearestMagnitude x)" by (rule pf)
    show "\<bar>nearestMagnitude x
          - real_of_int (currentSlide s + 1) / real_of_int (totalSlides s)\<bar>
        \<le> real_of_int (currentSlide s + 1) / real_of_int (totalSlides s) / 2 ^ 53"
      using acc by (simp only: x_def)
    show "progressBar (updateProgressBar s)
        = map_option (\<lambda>_. toDouble (nearestMagnitude x * 100)) (progressBar s)"
      by (simp add: updateProgressBar_def Let_def pf split: option.splits)
  qed
next
  assume "totalSlides s = 0 \<and> 0 \<le> currentSlide s"
  then show "progressFraction s = PosInf"
    by (simp add: progressFraction_def js_div_def)
qed

text \<open>
  C3 as written says the fraction is 0 when \<open>totalSlides = 0\<close>. \<open>updateProgressBar\<close>
  tests only that the bar exists and then divides: on the page without slides start-up
  computes \<open>1 / 0\<close>, which is \<open>Infinity\<close>.
\<close>

theorem progress_unguarded_counterexample:
  "totalSlides (init emptyDeck) = 0
   \<and> progressFraction (init emptyDeck) = PosInf
   \<and> progressFraction (init emptyDeck) \<noteq> Fin 0"
  by (simp add: progressFraction_def js_div_def init_emptyDeck)

text \<open>
  On the five-slide page the fraction at start-up is the double nearest to \<open>1 / 5\<close>. At
  slide 14 of 25 the fraction is the double nearest to \<open>14 / 25\<close>, and the percentage written
  to the bar is the double next above 56, which JavaScript prints as
  \<open>56.00000000000001\<close>.
\<close>

theorem progress_fraction_value_witness:
  "totalSlides (init deck5) \<noteq> 0
   \<and> progressFraction (init deck5) = Fin (3602879701896397 / 18014398509481984)
   \<and> totalSlides (init emptyDeck) = 0 \<and> 0 \<le> currentSlide (init emptyDeck)
   \<and> progressFraction (init emptyDeck) = PosInf
   \<and> progressFraction (goToSlide 13 (init deck25)) = Fin (1261007895663739 / 2251799813685248)
   \<and> progressBar (updateProgressBar (goToSlide 13 (init deck25))) = Some (Fin (56 + 1 / 2 ^ 47))"
proof -
  have "(progressBar (init p) = None) = (pageProgressBar p = None)" for p
    by (simp add: init_def setupElements_def constructor_def updateProgressBar_def
        updateSlideCounter_def updateNavigationButtons_def Let_def split: option.splits)
  then have i25: "\<not> isTransitioning (init deck25)" "currentSlide (init deck25) = 0"
    "totalSlides (init deck25) = 25" "progressBar (init deck25) \<noteq> None"
    by (simp_all add: init_fields deck25_def deck5_def)
  have g: "currentSlide (goToSlide 13 (init deck25)) = 13"
    "totalSlides (goToSlide 13 (init deck25)) = 25"
    "progressBar (goToSlide 13 (init deck25)) \<noteq> None"
    using goToSlide_accepted [of "init deck25" 13] by (simp_all add: i25)
  have f: "progressFraction (goToSlide 13 (init deck25))
      = Fin (1261007895663739 / 2251799813685248)"
    using progress_fraction_value [of "goToSlide 13 (init deck25)"]
    by (simp add: g toDouble_14_25)
  have bar: "progressBar (updateProgressBar (goToSlide 13 (init deck25)))
      = Some (Fin (56 + 1 / 2 ^ 47))"
  proof -
    have inr: "0 \<le> currentSlide (goToSlide 13 (init deck25))
        \<and> currentSlide (goToSlide 13 (init deck25)) < totalSlides (goToSlide 13 (init deck25))
        \<and> totalSlides (goToSlide 13 (init deck25)) \<le> 2 ^ 52"
      by (simp add: g)
    from progress_fraction_value [of "goToSlide 13 (init deck25)"] inr obtain v
      where v: "progressFraction (goToSlide 13 (init deck25)) = Fin v"
        and b: "progressBar (updateProgressBar (goToSlide 13 (init deck25)))
          = map_option (\<lambda>_. toDouble (v * 100)) (progressBar (goToSlide 13 (init deck25)))"
      by blast
    from v f have "v = 1261007895663739 / 2251799813685248" by simp
    then have "toDouble (v * 100) = Fin (56 + 1 / 2 ^ 47)" by (simp only: toDouble_56)
    with b g(3) show ?thesis by auto
  qed
  show ?thesis
    using progress_fraction_value [of "init deck5"] progress_fraction_value [of "init emptyDeck"]
      f bar
    by (simp add: init_deck5 init_emptyDeck toDouble_fifth)
qed

subsection \<open>C4: rejected navigation changes nothing\<close>

text \<open>
  C4. For every integer \<open>targetIndex\<close>, \<open>goToSlide targetIndex\<close> returns the state it was
  given, unchanged in every field (so in \<open>currentSlide\<close>, \<open>totalSlides\<close> and
  \<open>isTransitioning\<close>), whenever a transition is running, or \<open>targetIndex < 0\<close>, or
  \<open>targetIndex \<ge> totalSlides\<close>, or \<open>targetIndex = currentSlide\<close>. Consequently every
  navigation intent (next, previous, go-to, reset) is a no-op while a transition is running
  and when \<open>totalSlides = 0\<close>. The rejected path is a plain \<open>return\<close>: the functions
  are total and there is no error value for them to produce.
\<close>

theorem rejected_intents_are_noops:
  "(isTransitioning s \<or> targetIndex < 0 \<or> targetIndex \<ge> totalSlides s
      \<or> targetIndex = currentSlide s \<longrightarrow> goToSlide targetIndex s = s)
   \<and> (isTransitioning s \<or> totalSlides s = 0 \<longrightarrow> perform k s = s)"
proof (intro conjI impI)
  assume "isTransitioning s \<or> targetIndex < 0 \<or> targetIndex \<ge> totalSlides s
      \<or> targetIndex = currentSlide s"
  then show "goToSlide targetIndex s = s" by (simp add: goToSlide_def)
next
  assume a: "isTransitioning s \<or> totalSlides s = 0"
  show "perform k s = s"
  proof (cases k)
    case Next
    with a show ?thesis by (auto simp add: nextSlide_def goToSlide_def)
  next
    case Previous
    with a show ?thesis by (auto simp add: previousSlide_def goToSlide_def)
  next
    case (GoTo i)
    with a show ?thesis by (auto simp add: goToSlide_def)
  next
    case Reset
    with a show ?thesis by (auto simp add: resetPresentation_def goToSlide_def)
  qed
qed

theorem rejected_intents_are_noops_witness:
  "goToSlide 7 (init deck5) = init deck5
   \<and> goToSlide 2 (goToSlide 3 (init deck5)) = goToSlide 3 (init deck5)
   \<and> perform Next (init emptyDeck) = init emptyDeck"
proof -
  have "isTransitioning (goToSlide 3 (init deck5))"
    by (simp add: goToSlide_accepted init_deck5)
  then show ?thesis
    using rejected_intents_are_noops [of "init deck5" 7 Next]
      rejected_intents_are_noops [of "goToSlide 3 (init deck5)" 2 Next]
      rejected_intents_are_noops [of "init emptyDeck" 0 Next]
    by (simp add: init_deck5 init_emptyDeck)
qed

subsection \<open>C5: the five-slide scenario\<close>

text \<open>
  C5. On any page with five slides, starting at index 0, the calls next, next, previous,
  go-to 4, next, each issued in the idle state and each followed by 650 ms (the two delays of
  a transition), give the indices 1, 2, 1, 4, 4, every one observed in the idle state; the
  last next is a no-op, the index being the last one already.
\<close>

theorem five_slide_scenario:
  assumes "length (pageSlides p) = 5"
  shows "let s0 = init p;
             s1 = elapse 650 (perform Next s0);
             s2 = elapse 650 (perform Next s1);
             s3 = elapse 650 (perform Previous s2);
             s4 = elapse 650 (perform (GoTo 4) s3);
             s5 = elapse 650 (perform Next s4)
         in map currentSlide [s0, s1, s2, s3, s4, s5] = [0, 1, 2, 1, 4, 4]
            \<and> map isTransitioning [s0, s1, s2, s3, s4, s5]
                = [False, False, False, False, False, False]
            \<and> perform Next s4 = s4"
proof -
  define s0 where "s0 = init p"
  define s1 where "s1 = elapse 650 (perform Next s0)"
  define s2 where "s2 = elapse 650 (perform Next s1)"
  define s3 where "s3 = elapse 650 (perform Previous s2)"
  define s4 where "s4 = elapse 650 (perform (GoTo 4) s3)"
  define s5 where "s5 = elapse 650 (perform Next s4)"
  have f0: "currentSlide s0 = 0" "\<not> isTransitioning s0" "timers s0 = []" "totalSlides s0 = 5"
    using assms by (simp_all add: s0_def init_fields)
  have "perform Next s0 = goToSlide 1 s0"
    using f0 by (simp add: nextSlide_def)
  then have f1: "currentSlide s1 = 1" "\<not> isTransitioning s1" "timers s1 = []" "totalSlides s1 = 5"
    using settle [of s0 1] f0 by (simp_all add: s1_def del: elapse.simps)
  have "perform Next s1 = goToSlide 2 s1"
    using f1 by (simp add: nextSlide_def)
  then have f2: "currentSlide s2 = 2" "\<not> isTransitioning s2" "timers s2 = []" "totalSlides s2 = 5"
    using settle [of s1 2] f1 by (simp_all add: s2_def del: elapse.simps)
  have "perform Previous s2 = goToSlide 1 s2"
    using f2 by (simp add: previousSlide_def)
  then have f3: "currentSlide s3 = 1" "\<not> isTransitioning s3" "timers s3 = []" "totalSlides s3 = 5"
    using settle [of s2 1] f2 by (simp_all add: s3_def del: elapse.simps)
  have f4: "currentSlide s4 = 4" "\<not> isTransitioning s4" "timers s4 = []" "totalSlides s4 = 5"
    using settle [of s3 4] f3 by (simp_all add: s4_def del: elapse.simps)
  have noop: "perform Next s4 = s4"
    using f4 by (simp add: nextSlide_def)
  have e: "elapse 650 s4 = s4\<lparr>clock := clock s4 + 650\<rparr>"
    using elapse_no_timers [OF f4(3), of 650] by simp
  have f5: "currentSlide s5 = 4" "\<not> isTransitioning s5"
    using f4 by (simp_all add: s5_def nextSlide_def e del: elapse.simps)
  show ?thesis
    unfolding Let_def s0_def [symmetric] s1_def [symmetric] s2_def [symmetric]
      s3_def [symmetric] s4_def [symmetric] s5_def [symmetric]
    using f0 f1 f2 f3 f4 f5 noop by simp
qed

theorem five_slide_scenario_witness:
  "length (pageSlides deck5) = 5
   \<and> currentSlide (elapse 650 (perform Next (init deck5))) = 1
   \<and> currentSlide (elapse 650 (perform Next (elapse 650 (perform Next (init deck5))))) = 2"
  using five_slide_scenario [of deck5]
  by (simp add: demo_pages Let_def del: elapse.simps perform.simps)

subsection \<open>C6: the gesture examples\<close>

text \<open>
  C6 (as amended). A touch pair with horizontal delta 80, vertical delta 5 and 120 ms
  between start and end makes \<open>handleTouchEnd\<close> call \<open>nextSlide\<close> (and reset the start
  coordinates), provided both recorded start coordinates are non-zero. The same pair with
  400 ms produces no call, a horizontal delta of 30 produces no call, and a horizontal delta
  of 20 with a vertical delta of 60 produces no call; in these three cases the state is
  unchanged.
\<close>

theorem gesture_examples:
  "(touchStartX s \<noteq> 0 \<and> touchStartY s \<noteq> 0 \<and> touchStartX s - touchEndX = 80
      \<and> touchStartY s - touchEndY = 5 \<and> clock s - touchStartTime s = 120 \<longrightarrow>
      handleTouchEnd touchEndX touchEndY s
        = (Some Next, (nextSlide s)\<lparr>touchStartX := 0, touchStartY := 0\<rparr>))
   \<and> (touchStartX s - touchEndX = 80 \<and> touchStartY s - touchEndY = 5
        \<and> clock s - touchStartTime s = 400 \<longrightarrow>
      handleTouchEnd touchEndX touchEndY s = (None, s))
   \<and> (touchStartX s - touchEndX = 30 \<longrightarrow> handleTouchEnd touchEndX touchEndY s = (None, s))
   \<and> (touchStartX s - touchEndX = 20 \<and> touchStartY s - touchEndY = 60 \<longrightarrow>
      handleTouchEnd touchEndX touchEndY s = (None, s))"
proof (intro conjI impI)
  assume a: "touchStartX s \<noteq> 0 \<and> touchStartY s \<noteq> 0 \<and> touchStartX s - touchEndX = 80
      \<and> touchStartY s - touchEndY = 5 \<and> clock s - touchStartTime s = 120"
  then have guard: "\<not> (touchStartX s = 0 \<or> touchStartY s = 0)"
    and quick: "\<not> (clock s - touchStartTime s > 300 \<or> \<bar>touchStartX s - touchEndX\<bar> < 50)"
    and horizontal: "\<bar>touchStartX s - touchEndX\<bar> > \<bar>touchStartY s - touchEndY\<bar>"
    and leftwards: "touchStartX s - touchEndX > 0"
    by simp_all
  then show "handleTouchEnd touchEndX touchEndY s
      = (Some Next, (nextSlide s)\<lparr>touchStartX := 0, touchStartY := 0\<rparr>)"
    by (simp add: handleTouchEnd_def Let_def)
next
  assume "touchStartX s - touchEndX = 80 \<and> touchStartY s - touchEndY = 5
      \<and> clock s - touchStartTime s = 400"
  then have slow: "clock s - touchStartTime s > 300" by simp
  then show "handleTouchEnd touchEndX touchEndY s = (None, s)"
    by (simp add: handleTouchEnd_def Let_def)
next
  assume "touchStartX s - touchEndX = 30"
  then have short: "\<bar>touchStartX s - touchEndX\<bar> < 50" by simp
  then show "handleTouchEnd touchEndX touchEndY s = (None, s)"
    by (simp add: handleTouchEnd_def Let_def)
next
  assume "touchStartX s - touchEndX = 20 \<and> touchStartY s - touchEndY = 60"
  then have short: "\<bar>touchStartX s - touchEndX\<bar> < 50" by simp
  then show "handleTouchEnd touchEndX touchEndY s = (None, s)"
    by (simp add: handleTouchEnd_def Let_def)
qed

text \<open>
  C6 as written promises the call for every touch pair with these deltas. A touch that
  starts at the top edge, at \<open>(200, 0)\<close>, and ends 120 ms later at \<open>(120, -5)\<close> has
  horizontal delta 80 and vertical delta 5, but \<open>!this.touchStartY\<close> holds for the
  coordinate 0 and \<open>handleTouchEnd\<close> returns at its first line.
\<close>

theorem swipe_from_zero_coordinate_counterexample:
  "touchStartX (elapse 120 (handleTouchStart 200 0 (init deck5))) - 120 = 80
   \<and> touchStartY (elapse 120 (handleTouchStart 200 0 (init deck5))) - (- 5) = 5
   \<and> clock (elapse 120 (handleTouchStart 200 0 (init deck5)))
       - touchStartTime (elapse 120 (handleTouchStart 200 0 (init deck5))) = 120
   \<and> fst (handleTouchEnd 120 (- 5) (elapse 120 (handleTouchStart 200 0 (init deck5)))) = None"
proof -
  have "timers (handleTouchStart 200 0 (init deck5)) = []"
    by (simp add: handleTouchStart_def init_deck5)
  then have "elapse 120 (handleTouchStart 200 0 (init deck5))
      = (handleTouchStart 200 0 (init deck5))\<lparr>clock := clock (handleTouchStart 200 0 (init deck5)) + int 120\<rparr>"
    by (rule elapse_no_timers)
  then show ?thesis
    by (simp add: handleTouchStart_def handleTouchEnd_def init_deck5)
qed

theorem gesture_examples_witness:
  "handleTouchEnd 120 95 (elapse 120 (handleTouchStart 200 100 (init deck5)))
     = (Some Next, (nextSlide (elapse 120 (handleTouchStart 200 100 (init deck5))))
                     \<lparr>touchStartX := 0, touchStartY := 0\<rparr>)
   \<and> fst (handleTouchEnd 120 95 (elapse 400 (handleTouchStart 200 100 (init deck5)))) = None
   \<and> fst (handleTouchEnd 170 95 (elapse 120 (handleTouchStart 200 100 (init deck5)))) = None
   \<and> fst (handleTouchEnd 180 40 (elapse 120 (handleTouchStart 200 100 (init deck5)))) = None"
proof -
  have t: "timers (handleTouchStart 200 100 (init deck5)) = []"
    by (simp add: handleTouchStart_def init_deck5)
  have e: "touchStartX (elapse n (handleTouchStart 200 100 (init deck5))) = 200"
    "touchStartY (elapse n (handleTouchStart 200 100 (init deck5))) = 100"
    "touchStartTime (elapse n (handleTouchStart 200 100 (init deck5))) = 1000"
    "clock (elapse n (handleTouchStart 200 100 (init deck5))) = 1000 + int n" for n
    using elapse_no_timers [OF t, of n] by (simp_all add: handleTouchStart_def init_deck5)
  show ?thesis
    using gesture_examples [of "elapse 120 (handleTouchStart 200 100 (init deck5))" 120 95]
      gesture_examples [of "elapse 400 (handleTouchStart 200 100 (init deck5))" 120 95]
      gesture_examples [of "elapse 120 (handleTouchStart 200 100 (init deck5))" 170 95]
      gesture_examples [of "elapse 120 (handleTouchStart 200 100 (init deck5))" 180 40]
    by (simp add: e del: elapse.simps)
qed

subsection \<open>C7: the counter text after a transition\<close>

text \<open>
  C7. In every idle state \<open>s\<close> of a run (no transition running, so every transition before
  it has settled) the counter element, if the page has one, shows
  \<open>currentSlide + 1\<close>, \<open>'' / ''\<close>, \<open>totalSlides\<close>. And when a \<open>goToSlide targetIndex\<close> is
  accepted in \<open>s\<close>, then from its first callback on (50 ms or more after acceptance, so also
  when the flag is cleared at 650 ms) the index is \<open>targetIndex\<close>, \<open>totalSlides\<close> is
  unchanged and the counter shows \<open>targetIndex + 1\<close>, \<open>'' / ''\<close>, \<open>totalSlides\<close>.
\<close>

theorem counter_text_after_transition:
  assumes "s = run evs (init p)" "\<not> isTransitioning s"
  shows "slideCounter s =
           map_option (\<lambda>_. showInt (currentSlide s + 1) @ '' / '' @ showInt (totalSlides s))
             (pageSlideCounter p)
    \<and> (0 \<le> targetIndex \<and> targetIndex < totalSlides s \<and> targetIndex \<noteq> currentSlide s
          \<and> 50 \<le> n \<longrightarrow>
        currentSlide (elapse n (goToSlide targetIndex s)) = targetIndex
        \<and> totalSlides (elapse n (goToSlide targetIndex s)) = totalSlides s
        \<and> slideCounter (elapse n (goToSlide targetIndex s)) =
            map_option (\<lambda>_. showInt (targetIndex + 1) @ '' / '' @ showInt (totalSlides s))
              (pageSlideCounter p))"
proof -
  have inv: "consistent p s" using assms(1) by (simp add: consistent_reachable)
  with assms(2) have idle: "\<not> isTransitioning s" "timers s = []" and sync: "counterInSync s"
    and ex: "slideCounter s = None \<longleftrightarrow> pageSlideCounter p = None"
    by (simp_all add: consistent_def)
  have same: "map_option (\<lambda>_. c) (slideCounter s) = map_option (\<lambda>_. c) (pageSlideCounter p)" for c
    using ex by (rule map_option_const_cong)
  from sync have first: "slideCounter s =
      map_option (\<lambda>_. showInt (currentSlide s + 1) @ '' / '' @ showInt (totalSlides s))
        (pageSlideCounter p)"
    using same [of "counterText s"] by (simp add: counterInSync_def counterText_def)
  have second: "currentSlide (elapse n (goToSlide targetIndex s)) = targetIndex
        \<and> totalSlides (elapse n (goToSlide targetIndex s)) = totalSlides s
        \<and> slideCounter (elapse n (goToSlide targetIndex s)) =
            map_option (\<lambda>_. showInt (targetIndex + 1) @ '' / '' @ showInt (totalSlides s))
              (pageSlideCounter p)"
    if acc: "0 \<le> targetIndex" "targetIndex < totalSlides s" "targetIndex \<noteq> currentSlide s"
      and n: "50 \<le> n"
  proof -
    note g = goToSlide_accepted [OF idle(1) acc]
    let ?x = "(goToSlide targetIndex s)\<lparr>clock := clock s + 50, timers := []\<rparr>"
    have cnt: "counterText ?x = showInt (targetIndex + 1) @ '' / '' @ showInt (totalSlides s)"
      by (simp add: counterText_def g)
    show ?thesis
      using n same [of "showInt (targetIndex + 1) @ '' / '' @ showInt (totalSlides s)"]
      by (simp add: transition_phases [OF idle acc, of n] g runTask_Commit_counter cnt)
  qed
  from first second show ?thesis by blast
qed

theorem counter_text_after_transition_witness:
  "slideCounter (run [Call Next, Elapse 650] (init deck5)) = Some ''2 / 5''
   \<and> slideCounter (elapse 50 (goToSlide 3 (run [Call Next, Elapse 650] (init deck5))))
       = Some ''4 / 5''
   \<and> slideCounter (elapse 650 (goToSlide 3 (run [Call Next, Elapse 650] (init deck5))))
       = Some ''4 / 5''"
proof -
  let ?s = "run [Call Next, Elapse 650] (init deck5)"
  have h: "?s = run [Call Next, Elapse 650] (init deck5)" "\<not> isTransitioning ?s"
    by (simp_all add: deck5_after_next del: elapse.simps)
  show ?thesis
    using counter_text_after_transition [OF h, of 3 50]
      counter_text_after_transition [OF h, of 3 650]
    by (simp add: deck5_after_next demo_pages show_digits del: elapse.simps)
qed

subsection \<open>C8: the progress fraction is monotonic and reaches 1 at the last slide\<close>

text \<open>
  C8. For a fixed \<open>totalSlides > 0\<close> the progress fraction, the rounded quotient that the
  code computes, does not decrease when the index increases (compared with JavaScript's
  \<open><=\<close>), and it equals 1 if and only if \<open>currentSlide = totalSlides - 1\<close>.
  \<open>totalSlides\<close> is the length of a \<open>NodeList\<close>, an unsigned 32-bit number; the proof
  needs no more than \<open>totalSlides \<le> 2^52\<close>, so that a quotient other than 1 is far
  enough from 1 not to be rounded to it.
\<close>

theorem progress_monotone:
  assumes "0 < totalSlides s" "totalSlides s \<le> 2 ^ 52"
  shows "(totalSlides s' = totalSlides s \<and> currentSlide s \<le> currentSlide s' \<longrightarrow>
            js_le (progressFraction s) (progressFraction s'))
    \<and> (progressFraction s = Fin 1 \<longleftrightarrow> currentSlide s = totalSlides s - 1)"
proof (intro conjI impI)
  assume a: "totalSlides s' = totalSlides s \<and> currentSlide s \<le> currentSlide s'"
  have "real_of_int (currentSlide s + 1) / real_of_int (totalSlides s)
      \<le> real_of_int (currentSlide s' + 1) / real_of_int (totalSlides s)"
    using assms a by (simp add: divide_right_mono)
  then have "js_le (toDouble (real_of_int (currentSlide s + 1) / real_of_int (totalSlides s)))
      (toDouble (real_of_int (currentSlide s' + 1) / real_of_int (totalSlides s)))"
    by (rule toDouble_mono)
  with assms a show "js_le (progressFraction s) (progressFraction s')"
    by (simp add: progressFraction_def js_div_def)
next
  define t where "t = real_of_int (totalSlides s)"
  define x where "x = real_of_int (currentSlide s + 1) / t"
  from assms(2) have "real_of_int (totalSlides s) \<le> real_of_int (2 ^ 52)"
    by (simp only: of_int_le_iff)
  with assms(1) have t: "0 < t" "t \<le> 2 ^ 52"
    by (simp_all add: t_def)
  have frac: "progressFraction s = toDouble x"
    using assms(1) by (simp add: progressFraction_def js_div_def x_def t_def)
  show "progressFraction s = Fin 1 \<longleftrightarrow> currentSlide s = totalSlides s - 1"
  proof
    assume "currentSlide s = totalSlides s - 1"
    then have "x = 1" using t(1) by (simp add: x_def t_def)
    then show "progressFraction s = Fin 1" by (simp add: frac toDouble_one)
  next
    assume one: "progressFraction s = Fin 1"
    show "currentSlide s = totalSlides s - 1"
    proof (rule ccontr)
      assume "currentSlide s \<noteq> totalSlides s - 1"
      then consider "currentSlide s + 1 \<le> totalSlides s - 1" | "totalSlides s + 1 \<le> currentSlide s + 1"
        by linarith
      then show False
      proof cases
        case 1
        then have "real_of_int (currentSlide s + 1) \<le> real_of_int (totalSlides s - 1)"
          by (simp only: of_int_le_iff)
        then have "x \<le> (t - 1) / t"
          unfolding x_def using t(1) by (intro divide_right_mono) (simp_all add: t_def)
        also have "\<dots> = 1 - 1 / t" using t(1) by (simp add: field_simps)
        also have "\<dots> \<le> 1 - 1 / 2 ^ 53"
        proof -
          have "1 / 2 ^ 53 \<le> 1 / t" using t by (intro divide_left_mono) simp_all
          then show ?thesis by simp
        qed
        finally have "js_le (toDouble x) (toDouble (1 - 1 / 2 ^ 53))" by (rule toDouble_mono)
        then have "js_le (toDouble x) (Fin (1 - 1 / 2 ^ 53))" by (simp only: toDouble_below_one)
        with one show False by (simp add: frac)
      next
        case 2
        then have "real_of_int (totalSlides s + 1) \<le> real_of_int (currentSlide s + 1)"
          by (simp only: of_int_le_iff)
        then have "(t + 1) / t \<le> x"
          unfolding x_def using t(1) by (intro divide_right_mono) (simp_all add: t_def)
        moreover have "(t + 1) / t = 1 + 1 / t" using t(1) by (simp add: field_simps)
        moreover have "1 + 1 / 2 ^ 52 \<le> 1 + 1 / t"
        proof -
          have "1 / 2 ^ 52 \<le> 1 / t" using t by (intro divide_left_mono) simp_all
          then show ?thesis by simp
        qed
        ultimately have "1 + 1 / 2 ^ 52 \<le> x" by linarith
        then have "js_le (toDouble (1 + 1 / 2 ^ 52)) (toDouble x)" by (rule toDouble_mono)
        then have "js_le (Fin (1 + 1 / 2 ^ 52)) (toDouble x)" by (simp only: toDouble_above_one)
        with one show False by (simp add: frac)
      qed
    qed
  qed
qed

theorem progress_monotone_witness:
  "0 < totalSlides (init deck5) \<and> totalSlides (init deck5) \<le> 2 ^ 52
   \<and> js_le (progressFraction (init deck5)) (progressFraction (goToSlide 3 (init deck5)))
   \<and> progressFraction (init deck5) \<noteq> Fin 1
   \<and> progressFraction (goToSlide 4 (init deck5)) = Fin 1"
proof -
  have a: "\<not> isTransitioning (init deck5)" by (simp add: init_deck5)
  have g3: "currentSlide (goToSlide 3 (init deck5)) = 3" "totalSlides (goToSlide 3 (init deck5)) = 5"
    using goToSlide_accepted [of "init deck5" 3] by (simp_all add: init_deck5)
  have g4: "currentSlide (goToSlide 4 (init deck5)) = 4" "totalSlides (goToSlide 4 (init deck5)) = 5"
    using goToSlide_accepted [of "init deck5" 4] by (simp_all add: init_deck5)
  show ?thesis
    using progress_monotone [of "init deck5" "goToSlide 3 (init deck5)"]
      progress_monotone [of "goToSlide 4 (init deck5)" "init deck5"]
    by (simp add: init_deck5 g3 g4)
qed

subsection \<open>C9: the fallback title in the export\<close>

text \<open>
  C9. \<open>exportSlideData\<close> lists every slide with its own position as \<open>number\<close>, but a
  slide without \<open>h1\<close> and \<open>h2\<close> gets the title \<open>Slide\<close> followed by
  \<open>currentSlide + 1\<close>, the navigator's index, whatever the slide's position: any two slides
  without heading have the same title in the export.
\<close>

theorem export_fallback_title:
  "length (exportSlides (exportSlideData s)) = length (slides s)
   \<and> (n < length (slides s) \<longrightarrow>
        number (exportSlides (exportSlideData s) ! n) = int n + 1)
   \<and> (n < length (slides s) \<and> h1 (slides s ! n) = None \<and> h2 (slides s ! n) = None \<longrightarrow>
        slideTitle (exportSlides (exportSlideData s) ! n)
          = ''Slide '' @ showInt (currentSlide s + 1))
   \<and> (n < length (slides s) \<and> h1 (slides s ! n) = None \<and> h2 (slides s ! n) = None
        \<and> m < length (slides s) \<and> h1 (slides s ! m) = None \<and> h2 (slides s ! m) = None \<longrightarrow>
        slideTitle (exportSlides (exportSlideData s) ! n)
          = slideTitle (exportSlides (exportSlideData s) ! m))"
proof -
  have len: "length (exportSlides (exportSlideData s)) = length (slides s)"
    by (simp add: exportSlideData_def)
  have entry: "exportSlides (exportSlideData s) ! k
      = \<lparr>number = int k + 1, slideTitle = getSlideTitle s (Some (slides s ! k)),
         content = take 200 (trim (textContent (slides s ! k))) @ ''...''\<rparr>"
    if "k < length (slides s)" for k
    using that by (simp add: exportSlideData_def nth_enumerate_eq)
  have fallback: "getSlideTitle s (Some e) = ''Slide '' @ showInt (currentSlide s + 1)"
    if "h1 e = None" "h2 e = None" for e
    using that by (simp add: getSlideTitle_def)
  have title: "slideTitle (exportSlides (exportSlideData s) ! k)
      = ''Slide '' @ showInt (currentSlide s + 1)"
    if "k < length (slides s)" "h1 (slides s ! k) = None" "h2 (slides s ! k) = None" for k
    using that by (simp add: entry fallback)
  show ?thesis
    using len entry [of n] title [of n] title [of m] by simp
qed

theorem export_fallback_title_witness:
  "slideTitle (exportSlides (exportSlideData (goToSlide 3 (init deck5))) ! 1) = ''Slide 4''
   \<and> number (exportSlides (exportSlideData (goToSlide 3 (init deck5))) ! 1) = 2
   \<and> slideTitle (exportSlides (exportSlideData (goToSlide 3 (init deck5))) ! 4) = ''Slide 4''
   \<and> number (exportSlides (exportSlideData (goToSlide 3 (init deck5))) ! 4) = 5"
proof -
  let ?s = "goToSlide 3 (init deck5)"
  have sl: "slides ?s = [plainSlide\<lparr>h1 := Some '' Intro '', active := False, prev := False\<rparr>,
      plainSlide, plainSlide\<lparr>h2 := Some ''Agenda''\<rparr>, plainSlide, plainSlide]"
    by (simp add: goToSlide_def Let_def init_deck5 init_fields setTimeout_def updSlide_def
        deck5_def plainSlide_def)
  have cur: "currentSlide ?s = 3"
    using goToSlide_accepted [of "init deck5" 3] by (simp add: init_deck5)
  have h: "(1::nat) < length (slides ?s)" "h1 (slides ?s ! 1) = None" "h2 (slides ?s ! 1) = None"
    "(4::nat) < length (slides ?s)" "h1 (slides ?s ! 4) = None" "h2 (slides ?s ! 4) = None"
    by (simp_all add: sl plainSlide_def)
  show ?thesis
    using export_fallback_title [of ?s 1 4] export_fallback_title [of ?s 4 1] h
    by (simp add: cur show_digits)
qed

subsection \<open>C10: a start coordinate of 0 suppresses the gesture\<close>

text \<open>
  C10. When the recorded start X or the recorded start Y is 0, \<open>handleTouchEnd\<close> calls no
  navigation method and changes nothing, whatever the end point and the time. This covers a
  touch end that follows a handled one: a touch end that passes the speed and length tests
  resets both start coordinates to 0, so that a further touch end without a touch start in
  between produces nothing.
\<close>

theorem zero_start_coordinate_ignored:
  "(touchStartX s = 0 \<or> touchStartY s = 0 \<longrightarrow>
      handleTouchEnd touchEndX touchEndY s = (None, s))
   \<and> (touchStartX s \<noteq> 0 \<and> touchStartY s \<noteq> 0 \<and> clock s - touchStartTime s \<le> 300
        \<and> 50 \<le> \<bar>touchStartX s - touchEndX\<bar> \<longrightarrow>
      touchStartX (snd (handleTouchEnd touchEndX touchEndY s)) = 0
      \<and> touchStartY (snd (handleTouchEnd touchEndX touchEndY s)) = 0
      \<and> handleTouchEnd x y (snd (handleTouchEnd touchEndX touchEndY s))
          = (None, snd (handleTouchEnd touchEndX touchEndY s)))"
proof (intro conjI impI)
  assume "touchStartX s = 0 \<or> touchStartY s = 0"
  then show "handleTouchEnd touchEndX touchEndY s = (None, s)"
    by (simp add: handleTouchEnd_def)
next
  assume a: "touchStartX s \<noteq> 0 \<and> touchStartY s \<noteq> 0 \<and> clock s - touchStartTime s \<le> 300
        \<and> 50 \<le> \<bar>touchStartX s - touchEndX\<bar>"
  then show x0: "touchStartX (snd (handleTouchEnd touchEndX touchEndY s)) = 0"
    by (simp add: handleTouchEnd_def Let_def)
  then show "handleTouchEnd x y (snd (handleTouchEnd touchEndX touchEndY s))
          = (None, snd (handleTouchEnd touchEndX touchEndY s))"
    by (simp add: handleTouchEnd_def [of x y])
  from a show "touchStartY (snd (handleTouchEnd touchEndX touchEndY s)) = 0"
    by (simp add: handleTouchEnd_def Let_def)
qed

theorem zero_start_coordinate_ignored_witness:
  "touchStartX (handleTouchStart 0 300 (init deck5)) = 0
   \<and> handleTouchEnd 120 300 (handleTouchStart 0 300 (init deck5))
       = (None, handleTouchStart 0 300 (init deck5))
   \<and> fst (handleTouchEnd 120 300 (handleTouchStart 1 300 (init deck5))) = Some Previous
   \<and> handleTouchEnd 0 300 (snd (handleTouchEnd 120 300 (handleTouchStart 200 300 (init deck5))))
       = (None, snd (handleTouchEnd 120 300 (handleTouchStart 200 300 (init deck5))))"
proof -
  have a: "touchStartX (handleTouchStart 0 300 (init deck5)) = 0"
    by (simp add: handleTouchStart_def)
  have b: "touchStartX (handleTouchStart 200 300 (init deck5)) \<noteq> 0
      \<and> touchStartY (handleTouchStart 200 300 (init deck5)) \<noteq> 0
      \<and> clock (handleTouchStart 200 300 (init deck5))
          - touchStartTime (handleTouchStart 200 300 (init deck5)) \<le> 300
      \<and> 50 \<le> \<bar>touchStartX (handleTouchStart 200 300 (init deck5)) - 120\<bar>"
    by (simp add: handleTouchStart_def)
  have c: "fst (handleTouchEnd 120 300 (handleTouchStart 1 300 (init deck5))) = Some Previous"
    by (simp add: handleTouchStart_def handleTouchEnd_def Let_def)
  show ?thesis
    using zero_start_coordinate_ignored [of "handleTouchStart 0 300 (init deck5)" 120 300]
      zero_start_coordinate_ignored [of "handleTouchStart 200 300 (init deck5)" 120 300 0 300]
      a b c
    by simp
qed

end
